theory Spec2Isabelle
  imports Complex_Main "HOL-Library.Word"
begin

unbundle bit_operations_syntax

chapter \<open>A narration player: embedding of the sources and properties of the playback engine\<close>

text \<open>
  The development follows the TypeScript sources: \<^verbatim>\<open>services/geminiService.ts\<close>
  (speech and lesson fetching), the application shell (persisted state, schedule check) and the
  player component with point-reading (\<^verbatim>\<open>stopAllAudio\<close>, \<^verbatim>\<open>speakSentence\<close>,
  \<^verbatim>\<open>playNextSentence\<close>). Every definition is named after the source function it embeds.
  All definitions come first, the lemmas and theorems follow.
\<close>

section \<open>Definitions\<close>

subsection \<open>JavaScript values shared by the components\<close>

datatype js_error = RangeError | NotSupportedError | SyntaxError

text \<open>\<^verbatim>\<open>Number.prototype.toString()\<close> on a non-negative integer: its decimal digits.\<close>

definition digitChar :: "nat \<Rightarrow> char" where
  "digitChar d = ''0123456789'' ! d"

function toStringNat :: "nat \<Rightarrow> string" where
  "toStringNat n = (if n < 10 then [digitChar n] else toStringNat (n div 10) @ [digitChar (n mod 10)])"
  by pat_completeness auto
termination
  by (relation "measure (\<lambda>n. n)") auto

text \<open>\<^verbatim>\<open>s.padStart(2, '0')\<close>: zeros in front until the string has two characters.\<close>

definition padStart2 :: "string \<Rightarrow> string" where
  "padStart2 s = replicate (2 - length s) (CHR ''0'') @ s"

subsection \<open>Lessons and \<^verbatim>\<open>fetchLessonContent\<close>\<close>

record Sentence =
  sid :: string
  original :: string
  translation :: string

record Lesson =
  lid :: string
  title :: string
  author :: "string option"
  category :: string
  sentences :: "Sentence list"

text \<open>
  The parsed JSON answer of the model: every field may be missing, and a sentence object may
  carry an \<^verbatim>\<open>id\<close> of its own, which the spread \<^verbatim>\<open>{...s, id: `s-${i}`}\<close> overrides.
\<close>

record RawSentence =
  rawId :: "string option"
  rawOriginal :: string
  rawTranslation :: string

record LessonData =
  dataTitle :: "string option"
  dataCategory :: "string option"
  dataSentences :: "RawSentence list option"

text \<open>\<^verbatim>\<open>(s, i) => ({...s, id: `s-${i}`})\<close>\<close>

definition withPositionalId :: "RawSentence \<Rightarrow> nat \<Rightarrow> Sentence" where
  "withPositionalId s i =
     \<lparr>sid = ''s-'' @ toStringNat i, original = rawOriginal s, translation = rawTranslation s\<rparr>"

text \<open>\<^verbatim>\<open>Array.prototype.map\<close> with the index argument, as a loop over the positions.\<close>

fun mapIndexed :: "('a \<Rightarrow> nat \<Rightarrow> 'b) \<Rightarrow> nat \<Rightarrow> 'a list \<Rightarrow> 'b list" where
  "mapIndexed f i [] = []"
| "mapIndexed f i (x # xs) = f x i # mapIndexed f (Suc i) xs"

text \<open>
  \<^verbatim>\<open>fetchLessonContent\<close>. The network call and \<^verbatim>\<open>JSON.parse\<close> are the argument
  \<open>response\<close>: \<open>Inl\<close> when either throws (the \<^verbatim>\<open>catch\<close> returns \<^verbatim>\<open>null\<close>), \<open>Inr\<close> the
  parsed object. \<open>randomId\<close> is the value of \<^verbatim>\<open>Math.random().toString(36).substring(2, 11)\<close>.
  \<^verbatim>\<open>data.title || lessonName\<close> takes the name when the title is missing or empty.
\<close>

definition fetchLessonContent :: "string \<Rightarrow> string \<Rightarrow> js_error + LessonData \<Rightarrow> Lesson option" where
  "fetchLessonContent lessonName randomId response =
     (case response of
        Inl e \<Rightarrow> None
      | Inr data \<Rightarrow>
          Some \<lparr>lid = randomId,
                title = (case dataTitle data of
                           None \<Rightarrow> lessonName
                         | Some t \<Rightarrow> if t = [] then lessonName else t),
                author = None,
                category = ''custom'',
                sentences = mapIndexed withPositionalId 0
                              (case dataSentences data of None \<Rightarrow> [] | Some ss \<Rightarrow> ss)\<rparr>)"

subsection \<open>Application state, its restoration and the schedule check\<close>

datatype ViewMode = VHome | VPlayer | VScheduler | VLibrary | VScanner

record Schedule =
  schedId :: string
  schedName :: string
  startTime :: string
  endTime :: string
  enabled :: bool
  repeatDays :: "int list"

record AppState =
  currentView :: ViewMode
  currentLesson :: "Lesson option"
  schedules :: "Schedule list"
  isAutoModeArmed :: bool

text \<open>
  The \<^verbatim>\<open>useState\<close> initialiser of \<^verbatim>\<open>App\<close>. \<open>saved\<close> is the content of the storage key
  after \<^verbatim>\<open>JSON.parse\<close>: \<open>None\<close> when the key is absent or empty, \<open>Some (Inl e)\<close> when parsing
  raises (nothing catches it), \<open>Some (Inr parsed)\<close> the parsed state. \<open>mockLesson\<close> is
  \<^verbatim>\<open>MOCK_LESSONS[0]\<close>, a constant of a module outside the sources at hand.
  \<^verbatim>\<open>{ ...parsed, currentView: 'home', isAutoModeArmed: false }\<close> is a record update.
\<close>

definition defaultSchedules :: "Schedule list" where
  "defaultSchedules =
     [\<lparr>schedId = ''1'', schedName = ''breakfast'', startTime = ''07:00'', endTime = ''07:30'',
        enabled = True, repeatDays = [1, 2, 3, 4, 5]\<rparr>,
      \<lparr>schedId = ''2'', schedName = ''lunch'', startTime = ''12:00'', endTime = ''12:45'',
        enabled = True, repeatDays = [1, 2, 3, 4, 5]\<rparr>]"

definition initialAppState ::
  "(js_error + AppState) option \<Rightarrow> Lesson option \<Rightarrow> js_error + AppState" where
  "initialAppState saved mockLesson =
     (case saved of
        Some (Inl e) \<Rightarrow> Inl e
      | Some (Inr parsed) \<Rightarrow> Inr (parsed\<lparr>currentView := VHome, isAutoModeArmed := False\<rparr>)
      | None \<Rightarrow> Inr \<lparr>currentView = VHome, currentLesson = mockLesson,
                      schedules = defaultSchedules, isAutoModeArmed = False\<rparr>)"

definition setView :: "ViewMode \<Rightarrow> AppState \<Rightarrow> AppState" where
  "setView view prev = prev\<lparr>currentView := view\<rparr>"

text \<open>The fields of \<^verbatim>\<open>new Date()\<close> that \<^verbatim>\<open>checkSchedule\<close> reads.\<close>

record JsDate =
  getHours :: nat
  getMinutes :: nat
  getSeconds :: nat
  getDay :: int

definition currentHhMm :: "JsDate \<Rightarrow> string" where
  "currentHhMm now =
     padStart2 (toStringNat (getHours now)) @ '':'' @ padStart2 (toStringNat (getMinutes now))"

text \<open>The predicate handed to \<^verbatim>\<open>state.schedules.find\<close>.\<close>

definition scheduleMatches :: "JsDate \<Rightarrow> Schedule \<Rightarrow> bool" where
  "scheduleMatches now s \<longleftrightarrow>
     enabled s \<and> getDay now \<in> set (repeatDays s) \<and> startTime s = currentHhMm now"

definition activeSchedule :: "AppState \<Rightarrow> JsDate \<Rightarrow> Schedule option" where
  "activeSchedule state now = find (scheduleMatches now) (schedules state)"

definition checkSchedule :: "AppState \<Rightarrow> JsDate \<Rightarrow> AppState" where
  "checkSchedule state now =
     (if activeSchedule state now \<noteq> None \<and> currentView state \<noteq> VPlayer
      then setView VPlayer state else state)"

text \<open>The effect around it returns at once while the application is not armed.\<close>

definition autoStartEffect :: "AppState \<Rightarrow> JsDate \<Rightarrow> AppState" where
  "autoStartEffect state now = (if \<not> isAutoModeArmed state then state else checkSchedule state now)"

text \<open>
  The reading of the specification the schedule check is compared with: the time of day cut to
  the minute, written as two digits, a colon and two digits.
\<close>

definition minuteStamp :: "nat \<Rightarrow> nat \<Rightarrow> string" where
  "minuteStamp h m =
     [digitChar (h div 10), digitChar (h mod 10), CHR '':'', digitChar (m div 10), digitChar (m mod 10)]"

subsection \<open>PCM decoding: \<^verbatim>\<open>decodeAudioData\<close>\<close>

type_synonym byte = "8 word"

text \<open>
  A \<^verbatim>\<open>Uint8Array\<close> is a view on an \<^verbatim>\<open>ArrayBuffer\<close>. \<^verbatim>\<open>generateSpeech\<close> builds its result
  with \<^verbatim>\<open>new Uint8Array(len)\<close> and fills it byte by byte: a view at offset 0 over a buffer of
  its own.
\<close>

record Uint8Array =
  buffer :: "byte list"
  byteOffset :: nat
  byteLength :: nat

definition newUint8Array :: "byte list \<Rightarrow> Uint8Array" where
  "newUint8Array bs = \<lparr>buffer = bs, byteOffset = 0, byteLength = length bs\<rparr>"

text \<open>
  Element of an \<^verbatim>\<open>Int16Array\<close> at a byte position: two bytes in the byte order of the host,
  which is little-endian on the platforms the player runs on.
\<close>

definition int16At :: "byte list \<Rightarrow> nat \<Rightarrow> 16 word" where
  "int16At buf off =
     (ucast (buf ! off) :: 16 word) OR push_bit 8 (ucast (buf ! (off + 1)) :: 16 word)"

text \<open>
  \<^verbatim>\<open>new Int16Array(buffer, byteOffset, length)\<close> raises \<^verbatim>\<open>RangeError\<close> when the offset is
  not a multiple of the element size or the view would run past the end of the buffer.
\<close>

definition newInt16Array :: "byte list \<Rightarrow> nat \<Rightarrow> nat \<Rightarrow> js_error + 16 word list" where
  "newInt16Array buf off len =
     (if off mod 2 \<noteq> 0 then Inl RangeError
      else if length buf < off + 2 * len then Inl RangeError
      else Inr (map (\<lambda>i. int16At buf (off + 2 * i)) [0..<len]))"

text \<open>
  The audio context is an argument of the decoder; of it only \<^verbatim>\<open>createBuffer(1, n, 24000)\<close>
  is used, which yields the channel of a fresh buffer of \<open>n\<close> frames or raises.
\<close>

record AudioContext =
  createBuffer :: "nat \<Rightarrow> js_error + real list"

text \<open>
  A context after the Web Audio interface (\<^verbatim>\<open>BaseAudioContext.createBuffer\<close>): a fresh buffer
  is silent; the number of frames must be at least 1, and a request for zero frames raises
  \<^verbatim>\<open>NotSupportedError\<close>.
\<close>

definition webAudioContext :: AudioContext where
  "webAudioContext =
     \<lparr>createBuffer = (\<lambda>n. if n = 0 then Inl NotSupportedError else Inr (replicate n 0))\<rparr>"

text \<open>
  The loop \<^verbatim>\<open>for (let i = 0; i < bufferLength; i++) channelData[i] = dataInt16[i] / 32768.0\<close>.
  The quotient of a 16-bit integer by \<open>2\<^sup>1\<^sup>5\<close> is exact in the 32-bit floats of the channel, so
  the samples are modelled as the real numbers they denote.
\<close>

function fillChannel :: "16 word list \<Rightarrow> nat \<Rightarrow> nat \<Rightarrow> real list \<Rightarrow> real list" where
  "fillChannel dataInt16 bufferLength i channelData =
     (if i < bufferLength
      then fillChannel dataInt16 bufferLength (Suc i)
             (channelData[i := real_of_int (sint (dataInt16 ! i)) / 32768])
      else channelData)"
  by pat_completeness auto
termination
  by (relation "measure (\<lambda>(d, n, i, ch). n - i)") auto

definition decodeAudioData :: "Uint8Array \<Rightarrow> AudioContext \<Rightarrow> js_error + real list" where
  "decodeAudioData data ctx =
     (let bufferLength = byteLength data div 2 in
      case newInt16Array (buffer data) (byteOffset data) bufferLength of
        Inl e \<Rightarrow> Inl e
      | Inr dataInt16 \<Rightarrow>
          (case createBuffer ctx bufferLength of
             Inl e \<Rightarrow> Inl e
           | Inr channelData \<Rightarrow> Inr (fillChannel dataInt16 bufferLength 0 channelData)))"

text \<open>
  The reading of the specification the decoder is compared with: the signed 16-bit
  little-endian integer made of a low and a high byte.
\<close>

definition int16le :: "byte \<Rightarrow> byte \<Rightarrow> int" where
  "int16le lo hi = (let u = uint lo + 256 * uint hi in if u < 32768 then u else u - 65536)"

subsection \<open>The player component with point-reading\<close>

text \<open>The transient messages of \<^verbatim>\<open>statusMsg\<close>, in the order they occur in the source.\<close>

datatype status =
    Preparing          \<comment> \<open>point-read requested, speech being generated\<close>
  | Absent             \<comment> \<open>point-read: no audio came back\<close>
  | SummonFailed       \<comment> \<open>point-read: the \<^verbatim>\<open>catch\<close> branch\<close>
  | Studying int       \<comment> \<open>narration: the number of the unit being requested\<close>
  | Finished           \<comment> \<open>narration: the last unit has ended\<close>
  | Interrupted        \<comment> \<open>narration: the \<^verbatim>\<open>catch\<close> branch\<close>

text \<open>
  The two closures assigned to \<^verbatim>\<open>source.onended\<close>. The one of the narration captures the
  index played and the value of \<^verbatim>\<open>isLooping\<close> of the render whose \<^verbatim>\<open>playNextSentence\<close> built it.
\<close>

datatype handler = OnPointEnded | OnAutoEnded int bool

text \<open>
  An \<^verbatim>\<open>AudioBufferSourceNode\<close>: created, playing after \<^verbatim>\<open>start(0)\<close>, halted by \<^verbatim>\<open>stop()\<close> with
  its \<^verbatim>\<open>ended\<close> event still to be delivered, and done once that event has been delivered.
\<close>

datatype phase = Created | Playing | Halted | Done

record Source =
  srcBuffer :: "real list"
  onended :: "handler option"
  phase :: phase
  connected :: bool

text \<open>The calls made on source nodes, logged in the order the component makes them.\<close>

datatype devop = Detach nat | Stop nat | Disconnect nat | Start nat

text \<open>
  A call of \<^verbatim>\<open>generateSpeech\<close> that has not come back yet, with what its continuation
  captured: for the narration the index and \<^verbatim>\<open>isLooping\<close>, for a point-read the identifier.
\<close>

datatype request = AutoRequest int bool | PointRequest string | Settled

record Player =
  currentIndex :: int
  isPlaying :: bool
  isLooping :: bool
  loadingAudio :: bool
  activeSpeechId :: "string option"
  loadingSpeechId :: "string option"
  statusMsg :: "status option"
  isComponentMounted :: bool
  currentSourceRef :: "nat option"
  sources :: "Source list"
  requests :: "request list"
  timers :: "int option list"
  deviceLog :: "devop list"

text \<open>
  An identifier in a condition, as in \<^verbatim>\<open>if (activeSpeechId)\<close>: \<^verbatim>\<open>null\<close> and the empty string
  count as false.
\<close>

definition truthy :: "string option \<Rightarrow> bool" where
  "truthy a \<longleftrightarrow> (case a of None \<Rightarrow> False | Some s \<Rightarrow> s \<noteq> [])"

definition initialPlayer :: Player where
  "initialPlayer =
     \<lparr>currentIndex = 0, isPlaying = False, isLooping = False, loadingAudio = False,
      activeSpeechId = None, loadingSpeechId = None, statusMsg = None,
      isComponentMounted = True, currentSourceRef = None, sources = [], requests = [],
      timers = [], deviceLog = []\<rparr>"

text \<open>
  \<^verbatim>\<open>stopAllAudio\<close>: on the current source, first \<^verbatim>\<open>onended = null\<close>, then \<^verbatim>\<open>stop()\<close>, then
  \<^verbatim>\<open>disconnect()\<close>; the reference is cleared and so is \<^verbatim>\<open>activeSpeechId\<close>. Every source that
  reaches the reference has been started, so \<^verbatim>\<open>stop()\<close> does not throw.
\<close>

definition detachSource :: "nat \<Rightarrow> Player \<Rightarrow> Player" where
  "detachSource i p =
     p\<lparr>sources := (sources p)[i := (sources p ! i)\<lparr>onended := None\<rparr>],
       deviceLog := deviceLog p @ [Detach i]\<rparr>"

definition stopSource :: "nat \<Rightarrow> Player \<Rightarrow> Player" where
  "stopSource i p =
     p\<lparr>sources := (sources p)[i := (sources p ! i)
                       \<lparr>phase := (if phase (sources p ! i) = Playing then Halted
                                   else phase (sources p ! i))\<rparr>],
       deviceLog := deviceLog p @ [Stop i]\<rparr>"

definition disconnectSource :: "nat \<Rightarrow> Player \<Rightarrow> Player" where
  "disconnectSource i p =
     p\<lparr>sources := (sources p)[i := (sources p ! i)\<lparr>connected := False\<rparr>],
       deviceLog := deviceLog p @ [Disconnect i]\<rparr>"

definition startSource :: "nat \<Rightarrow> Player \<Rightarrow> Player" where
  "startSource i p =
     p\<lparr>sources := (sources p)[i := (sources p ! i)\<lparr>phase := Playing\<rparr>],
       deviceLog := deviceLog p @ [Start i]\<rparr>"

definition stopAllAudio :: "Player \<Rightarrow> Player" where
  "stopAllAudio p =
     (case currentSourceRef p of
        None \<Rightarrow> p
      | Some i \<Rightarrow> (disconnectSource i (stopSource i (detachSource i p)))\<lparr>currentSourceRef := None\<rparr>)
     \<lparr>activeSpeechId := None\<rparr>"

text \<open>\<^verbatim>\<open>ctx.createBufferSource()\<close>, \<^verbatim>\<open>source.buffer = buffer\<close>, \<^verbatim>\<open>source.connect(ctx.destination)\<close>
  and the assignment of \<^verbatim>\<open>onended\<close>; the new node is the last of the list.\<close>

definition createBufferSource :: "real list \<Rightarrow> handler \<Rightarrow> Player \<Rightarrow> Player" where
  "createBufferSource buf h p =
     p\<lparr>sources := sources p @ [\<lparr>srcBuffer = buf, onended = Some h, phase = Created, connected = True\<rparr>]\<rparr>"

text \<open>
  \<^verbatim>\<open>playNextSentence\<close> up to its call of \<^verbatim>\<open>generateSpeech\<close>. \<open>capPlaying\<close> and \<open>capLooping\<close>
  are the values of \<^verbatim>\<open>isPlaying\<close> and \<^verbatim>\<open>isLooping\<close> in the closure that is called.
  \<^verbatim>\<open>lesson.sentences[index]\<close> is \<^verbatim>\<open>undefined\<close> outside the list, reading its \<^verbatim>\<open>original\<close>
  raises, and the \<^verbatim>\<open>catch\<close> branch reports the interruption.
\<close>

definition playNextSentence :: "Lesson \<Rightarrow> bool \<Rightarrow> bool \<Rightarrow> int \<Rightarrow> Player \<Rightarrow> Player" where
  "playNextSentence lesson capPlaying capLooping index p =
     (if \<not> capPlaying \<or> \<not> isComponentMounted p then p
      else
        let p1 = p\<lparr>loadingAudio := True, statusMsg := Some (Studying (index + 1))\<rparr> in
        if 0 \<le> index \<and> index < int (length (sentences lesson))
        then p1\<lparr>requests := requests p1 @ [AutoRequest index capLooping]\<rparr>
        else p1\<lparr>loadingAudio := False, statusMsg := Some Interrupted\<rparr>)"

text \<open>
  The continuation of \<^verbatim>\<open>playNextSentence\<close> once \<^verbatim>\<open>generateSpeech\<close> has come back. Its
  \<^verbatim>\<open>isPlaying\<close> is the captured one, which was true when the call passed the first guard.
\<close>

definition autoSpeechDone ::
  "AudioContext \<Rightarrow> bool \<Rightarrow> int \<Rightarrow> bool \<Rightarrow> byte list option \<Rightarrow> Player \<Rightarrow> Player" where
  "autoSpeechDone ctx capPlaying index capLooping audioBytes p =
     (if \<not> isComponentMounted p \<or> \<not> capPlaying then p
      else
        let p1 = p\<lparr>loadingAudio := False\<rparr> in
        case audioBytes of
          None \<Rightarrow> p1\<lparr>timers := timers p1 @ [Some index]\<rparr>
        | Some bs \<Rightarrow>
            (case decodeAudioData (newUint8Array bs) ctx of
               Inl e \<Rightarrow> p1\<lparr>loadingAudio := False, statusMsg := Some Interrupted\<rparr>
             | Inr buf \<Rightarrow>
                 let p2 = createBufferSource buf (OnAutoEnded index capLooping) p1;
                     src = length (sources p1);
                     p3 = stopAllAudio p2;
                     p4 = p3\<lparr>currentSourceRef := Some src\<rparr>;
                     p5 = startSource src p4
                 in p5\<lparr>statusMsg := None\<rparr>))"

text \<open>The callback handed to \<^verbatim>\<open>setTimeout(..., 1000)\<close> when no audio came back.\<close>

definition skipAfterFailure :: "Lesson \<Rightarrow> int \<Rightarrow> Player \<Rightarrow> Player" where
  "skipAfterFailure lesson index p =
     (if index + 1 < int (length (sentences lesson))
      then p\<lparr>currentIndex := index + 1\<rparr>
      else p\<lparr>isPlaying := False\<rparr>)"

text \<open>The \<^verbatim>\<open>onended\<close> closure of the narration.\<close>

definition autoEnded :: "Lesson \<Rightarrow> int \<Rightarrow> bool \<Rightarrow> Player \<Rightarrow> Player" where
  "autoEnded lesson index capLooping p =
     (if \<not> isComponentMounted p then p
      else if capLooping then playNextSentence lesson True capLooping index p
      else
        let next = index + 1 in
        if next < int (length (sentences lesson))
        then p\<lparr>currentIndex := next\<rparr>
        else p\<lparr>isPlaying := False, statusMsg := Some Finished\<rparr>)"

text \<open>\<^verbatim>\<open>speakSentence\<close> up to its call of \<^verbatim>\<open>generateSpeech\<close>, and its continuation.\<close>

definition speakSentence :: "string \<Rightarrow> Player \<Rightarrow> Player" where
  "speakSentence ident p =
     (let p1 = stopAllAudio p;
          p2 = p1\<lparr>isPlaying := False, loadingSpeechId := Some ident, statusMsg := Some Preparing\<rparr>
      in p2\<lparr>requests := requests p2 @ [PointRequest ident]\<rparr>)"

definition pointSpeechDone :: "AudioContext \<Rightarrow> string \<Rightarrow> byte list option \<Rightarrow> Player \<Rightarrow> Player" where
  "pointSpeechDone ctx ident audioBytes p =
     (if \<not> isComponentMounted p then p
      else
        let p1 = p\<lparr>loadingSpeechId := None\<rparr> in
        case audioBytes of
          None \<Rightarrow> p1\<lparr>statusMsg := Some Absent\<rparr>
        | Some bs \<Rightarrow>
            (case decodeAudioData (newUint8Array bs) ctx of
               Inl e \<Rightarrow> p1\<lparr>loadingSpeechId := None, statusMsg := Some SummonFailed\<rparr>
             | Inr buf \<Rightarrow>
                 let p2 = createBufferSource buf OnPointEnded p1;
                     src = length (sources p1);
                     p3 = p2\<lparr>currentSourceRef := Some src, activeSpeechId := Some ident,
                             statusMsg := None\<rparr>
                 in startSource src p3))"

text \<open>The body of the effect on \<^verbatim>\<open>[currentIndex, isPlaying, playNextSentence, activeSpeechId]\<close>.\<close>

definition playbackEffect :: "Lesson \<Rightarrow> Player \<Rightarrow> Player" where
  "playbackEffect lesson p =
     (if isPlaying p then playNextSentence lesson (isPlaying p) (isLooping p) (currentIndex p) p
      else if \<not> truthy (activeSpeechId p) then stopAllAudio p
      else p)"

text \<open>
  The effect runs after a render in which one of its dependencies has changed;
  \<^verbatim>\<open>playNextSentence\<close> is a new closure whenever \<^verbatim>\<open>isPlaying\<close> or \<^verbatim>\<open>isLooping\<close> has changed
  (the lesson is fixed while the component lives).
\<close>

definition depsChanged :: "Player \<Rightarrow> Player \<Rightarrow> bool" where
  "depsChanged old new \<longleftrightarrow>
     currentIndex old \<noteq> currentIndex new \<or> isPlaying old \<noteq> isPlaying new \<or>
     isLooping old \<noteq> isLooping new \<or> activeSpeechId old \<noteq> activeSpeechId new"

definition afterRender :: "Lesson \<Rightarrow> Player \<Rightarrow> Player \<Rightarrow> Player" where
  "afterRender lesson old new = (if depsChanged old new then playbackEffect lesson new else new)"

text \<open>The controls.\<close>

definition toggleAutoPlay :: "Player \<Rightarrow> Player" where
  "toggleAutoPlay p =
     (let p1 = (if truthy (activeSpeechId p) then stopAllAudio p else p)
      in p1\<lparr>isPlaying := \<not> isPlaying p\<rparr>)"

definition toggleLoop :: "Player \<Rightarrow> Player" where
  "toggleLoop p = p\<lparr>isLooping := \<not> isLooping p\<rparr>"

text \<open>The previous and next buttons; a disabled button delivers no click.\<close>

definition prevClick :: "Player \<Rightarrow> Player" where
  "prevClick p =
     (if currentIndex p = 0 then p
      else p\<lparr>currentIndex := max 0 (currentIndex p - 1)\<rparr>)"

definition nextClick :: "Lesson \<Rightarrow> Player \<Rightarrow> Player" where
  "nextClick lesson p =
     (if currentIndex p = int (length (sentences lesson)) - 1 then p
      else p\<lparr>currentIndex := min (int (length (sentences lesson)) - 1) (currentIndex p + 1)\<rparr>)"

text \<open>
  Delivery of the \<^verbatim>\<open>ended\<close> event of a source: after the buffer has been played to its end or
  after \<^verbatim>\<open>stop()\<close>. The handler is the one attached at the time of delivery.
\<close>

definition sourceEnded :: "Lesson \<Rightarrow> nat \<Rightarrow> Player \<Rightarrow> Player" where
  "sourceEnded lesson i p =
     (if i < length (sources p) \<and> (phase (sources p ! i) = Playing \<or> phase (sources p ! i) = Halted)
      then
        let p1 = p\<lparr>sources := (sources p)[i := (sources p ! i)\<lparr>phase := Done\<rparr>]\<rparr> in
        case onended (sources p ! i) of
          None \<Rightarrow> p1
        | Some OnPointEnded \<Rightarrow> p1\<lparr>activeSpeechId := None\<rparr>
        | Some (OnAutoEnded index capLooping) \<Rightarrow> autoEnded lesson index capLooping p1
      else p)"

definition speechDone :: "AudioContext \<Rightarrow> nat \<Rightarrow> byte list option \<Rightarrow> Player \<Rightarrow> Player" where
  "speechDone ctx r audioBytes p =
     (if r < length (requests p)
      then
        let p1 = p\<lparr>requests := (requests p)[r := Settled]\<rparr> in
        case requests p ! r of
          AutoRequest index capLooping \<Rightarrow> autoSpeechDone ctx True index capLooping audioBytes p1
        | PointRequest ident \<Rightarrow> pointSpeechDone ctx ident audioBytes p1
        | Settled \<Rightarrow> p
      else p)"

definition timerFired :: "Lesson \<Rightarrow> nat \<Rightarrow> Player \<Rightarrow> Player" where
  "timerFired lesson t p =
     (if t < length (timers p)
      then
        case timers p ! t of
          None \<Rightarrow> p
        | Some index \<Rightarrow> skipAfterFailure lesson index (p\<lparr>timers := (timers p)[t := None]\<rparr>)
      else p)"

text \<open>
  The clean-up of the mounting effect: the flag is lowered and the context closed, which
  silences every source.
\<close>

definition unmount :: "Player \<Rightarrow> Player" where
  "unmount p =
     p\<lparr>isComponentMounted := False,
       sources := map (\<lambda>s. s\<lparr>phase := Done\<rparr>) (sources p)\<rparr>"

text \<open>
  What can happen to a mounted player: the user's clicks, the return of a speech request
  (with the bytes or without audio), the end of a source, the skip timer, the unmounting.
\<close>

datatype event =
    ToggleAutoPlay
  | SpeakSentence string
  | PrevClick
  | NextClick
  | ToggleLoop
  | SpeechDone nat "byte list option"
  | SourceEnded nat
  | TimerFired nat
  | Unmount

definition handle :: "Lesson \<Rightarrow> AudioContext \<Rightarrow> event \<Rightarrow> Player \<Rightarrow> Player" where
  "handle lesson ctx ev p =
     (case ev of
        ToggleAutoPlay \<Rightarrow> toggleAutoPlay p
      | SpeakSentence ident \<Rightarrow> speakSentence ident p
      | PrevClick \<Rightarrow> prevClick p
      | NextClick \<Rightarrow> nextClick lesson p
      | ToggleLoop \<Rightarrow> toggleLoop p
      | SpeechDone r audioBytes \<Rightarrow> speechDone ctx r audioBytes p
      | SourceEnded i \<Rightarrow> sourceEnded lesson i p
      | TimerFired t \<Rightarrow> timerFired lesson t p
      | Unmount \<Rightarrow> unmount p)"

text \<open>
  One event: its handler, then the render and the effect. The waits for
  \<^verbatim>\<open>ensureAudioContext\<close> are taken as immediate: the context exists and runs. Once the
  component is unmounted no control exists and state updates are dropped.
\<close>

definition step :: "Lesson \<Rightarrow> AudioContext \<Rightarrow> event \<Rightarrow> Player \<Rightarrow> Player" where
  "step lesson ctx ev p =
     (if \<not> isComponentMounted p then p
      else if ev = Unmount then unmount p
      else afterRender lesson p (handle lesson ctx ev p))"

fun run :: "Lesson \<Rightarrow> AudioContext \<Rightarrow> event list \<Rightarrow> Player \<Rightarrow> Player" where
  "run lesson ctx [] p = p"
| "run lesson ctx (ev # evs) p = run lesson ctx evs (step lesson ctx ev p)"

text \<open>The sources that produce sound.\<close>

definition activeSources :: "Player \<Rightarrow> nat" where
  "activeSources p = length (filter (\<lambda>s. phase s = Playing) (sources p))"

text \<open>A lesson of three units, for the concrete runs.\<close>

definition threeUnits :: Lesson where
  "threeUnits =
     \<lparr>lid = ''l'', title = ''t'', author = None, category = ''middle'',
      sentences = [\<lparr>sid = ''s-0'', original = ''a'', translation = ''x''\<rparr>,
                   \<lparr>sid = ''s-1'', original = ''b'', translation = ''y''\<rparr>,
                   \<lparr>sid = ''s-2'', original = ''c'', translation = ''z''\<rparr>]\<rparr>"

text \<open>A lesson without units, as \<^verbatim>\<open>fetchLessonContent\<close> builds it from an empty sentence list.\<close>

definition noUnits :: Lesson where
  "noUnits = \<lparr>lid = ''e'', title = ''t'', author = None, category = ''custom'', sentences = []\<rparr>"

text \<open>
  The click on a sentence in the first player draft:
  \<^verbatim>\<open>setCurrentIndex(idx); if (!isPlaying) setIsPlaying(true)\<close>. Only the sentences of the lesson
  are rendered, so there is no click for another \<open>idx\<close>.
\<close>

definition sentenceClick :: "Lesson \<Rightarrow> nat \<Rightarrow> Player \<Rightarrow> Player" where
  "sentenceClick lesson idx p =
     (if idx < length (sentences lesson)
      then (let p1 = p\<lparr>currentIndex := int idx\<rparr>
            in if \<not> isPlaying p then p1\<lparr>isPlaying := True\<rparr> else p1)
      else p)"

text \<open>The words of the specification about navigation.\<close>

definition validIndex :: "Lesson \<Rightarrow> int \<Rightarrow> bool" where
  "validIndex lesson i \<longleftrightarrow> 0 \<le> i \<and> i < int (length (sentences lesson))"

definition clamp :: "int \<Rightarrow> int \<Rightarrow> int \<Rightarrow> int" where
  "clamp i lo hi = max lo (min i hi)"

definition isNavigation :: "event \<Rightarrow> bool" where
  "isNavigation ev \<longleftrightarrow> ev = PrevClick \<or> ev = NextClick"



text \<open>Runs of the three-unit lesson that the examples start from.\<close>

definition narratingFirst :: Player where
  "narratingFirst =
     run threeUnits webAudioContext [ToggleAutoPlay, SpeechDone 0 (Some [0, 0])] initialPlayer"




definition pointRequested :: Player where
  "pointRequested = step threeUnits webAudioContext (SpeakSentence ''s-1-orig'') narratingFirst"

definition pointReading :: Player where
  "pointReading = step threeUnits webAudioContext (SpeechDone 1 (Some [0, 0])) pointRequested"

text \<open>
  The words of the specification about stopping: in the log of the calls on source nodes,
  every \<^verbatim>\<open>stop()\<close> comes directly after the detaching of the handler of the same node; a
  halted source has no handler; the reference, when set, names a source.
\<close>

definition stopsDetached :: "devop list \<Rightarrow> bool" where
  "stopsDetached ops \<longleftrightarrow>
     (\<forall>j \<in> {..<length ops}.
        case ops ! j of Stop i \<Rightarrow> 0 < j \<and> ops ! (j - 1) = Detach i | _ \<Rightarrow> True)"

definition haltedDetached :: "Player \<Rightarrow> bool" where
  "haltedDetached p \<longleftrightarrow>
     (\<forall>i \<in> {..<length (sources p)}. phase (sources p ! i) = Halted \<longrightarrow> onended (sources p ! i) = None)"

definition refInRange :: "Player \<Rightarrow> bool" where
  "refInRange p \<longleftrightarrow> (case currentSourceRef p of None \<Rightarrow> True | Some i \<Rightarrow> i < length (sources p))"

definition stoppingInvariant :: "Player \<Rightarrow> bool" where
  "stoppingInvariant p \<longleftrightarrow> stopsDetached (deviceLog p) \<and> haltedDetached p \<and> refInRange p"

definition pausedFirst :: Player where
  "pausedFirst = step threeUnits webAudioContext ToggleAutoPlay narratingFirst"

text \<open>The state a freshly mounted player reaches by a sequence of events.\<close>

definition reached :: "Lesson \<Rightarrow> AudioContext \<Rightarrow> event list \<Rightarrow> Player" where
  "reached lesson ctx evs = run lesson ctx evs initialPlayer"

subsection \<open>Earlier drafts of the player\<close>

text \<open>
  The second draft decodes with \<^verbatim>\<open>new Int16Array(data.buffer)\<close>, a view on the whole buffer,
  which raises \<^verbatim>\<open>RangeError\<close> when the byte length is odd; its frame count is the length of
  that view.
\<close>

definition newInt16ArrayWhole :: "byte list \<Rightarrow> js_error + 16 word list" where
  "newInt16ArrayWhole buf =
     (if length buf mod 2 \<noteq> 0 then Inl RangeError
      else Inr (map (\<lambda>i. int16At buf (2 * i)) [0..<length buf div 2]))"

definition decodeAudioDataDraft :: "Uint8Array \<Rightarrow> AudioContext \<Rightarrow> js_error + real list" where
  "decodeAudioDataDraft data ctx =
     (case newInt16ArrayWhole (buffer data) of
        Inl e \<Rightarrow> Inl e
      | Inr dataInt16 \<Rightarrow>
          (let frameCount = length dataInt16 in
           case createBuffer ctx frameCount of
             Inl e \<Rightarrow> Inl e
           | Inr channelData \<Rightarrow> Inr (fillChannel dataInt16 frameCount 0 channelData)))"

section \<open>Lemmas and theorems\<close>

subsection \<open>Decimal strings\<close>

declare toStringNat.simps [simp del]

lemma toStringNat_digit: "n < 10 \<Longrightarrow> toStringNat n = [digitChar n]"
  by (subst toStringNat.simps) simp

lemma toStringNat_two_digits:
  "10 \<le> n \<Longrightarrow> n < 100 \<Longrightarrow> toStringNat n = [digitChar (n div 10), digitChar (n mod 10)]"
proof -
  assume a: "10 \<le> n" "n < 100"
  then have "n div 10 < 10" by simp
  then have "toStringNat (n div 10) = [digitChar (n div 10)]" by (rule toStringNat_digit)
  moreover have "toStringNat n = toStringNat (n div 10) @ [digitChar (n mod 10)]"
    using a by (subst toStringNat.simps) simp
  ultimately show ?thesis by simp
qed

lemma padStart2_toStringNat:
  "n < 100 \<Longrightarrow> padStart2 (toStringNat n) = [digitChar (n div 10), digitChar (n mod 10)]"
proof (cases "n < 10")
  case True
  then show ?thesis by (simp add: padStart2_def toStringNat_digit digitChar_def)
next
  case False
  assume "n < 100"
  with False show ?thesis by (simp add: padStart2_def toStringNat_two_digits)
qed

lemma currentHhMm_minuteStamp:
  "getHours now < 24 \<Longrightarrow> getMinutes now < 60 \<Longrightarrow>
   currentHhMm now = minuteStamp (getHours now) (getMinutes now)"
  by (simp add: currentHhMm_def minuteStamp_def padStart2_toStringNat)

subsection \<open>Lesson fetching\<close>

lemma length_mapIndexed: "length (mapIndexed f k xs) = length xs"
  by (induction xs arbitrary: k) simp_all

lemma nth_mapIndexed: "i < length xs \<Longrightarrow> mapIndexed f k xs ! i = f (xs ! i) (k + i)"
proof (induction xs arbitrary: k i)
  case Nil
  then show ?case by simp
next
  case (Cons x xs)
  then show ?case by (cases i) simp_all
qed

text \<open>
  Claim C10. Whenever \<^verbatim>\<open>fetchLessonContent\<close> returns a lesson, its category is the constant
  \<open>custom\<close>, whatever category the fetched data carries (changing that field changes
  nothing in the result), and it has one sentence per fetched sentence, in the fetched order,
  the one at position \<open>i\<close> with the identifier \<open>s-i\<close> and the fetched texts.
\<close>

theorem fetchLessonContent_custom_positional:
  assumes "fetchLessonContent lessonName randomId response = Some lesson"
  shows "category lesson = ''custom'' \<and>
         (\<exists>data. response = Inr data \<and>
            (\<forall>c. fetchLessonContent lessonName randomId (Inr (data\<lparr>dataCategory := c\<rparr>)) = Some lesson) \<and>
            length (sentences lesson) = length (case dataSentences data of None \<Rightarrow> [] | Some ss \<Rightarrow> ss) \<and>
            (\<forall>i < length (sentences lesson).
               sid (sentences lesson ! i) = ''s-'' @ toStringNat i \<and>
               original (sentences lesson ! i) =
                 rawOriginal ((case dataSentences data of None \<Rightarrow> [] | Some ss \<Rightarrow> ss) ! i) \<and>
               translation (sentences lesson ! i) =
                 rawTranslation ((case dataSentences data of None \<Rightarrow> [] | Some ss \<Rightarrow> ss) ! i)))"
proof (cases response)
  case (Inl e)
  with assms show ?thesis by (simp add: fetchLessonContent_def)
next
  case (Inr data)
  define ss where "ss = (case dataSentences data of None \<Rightarrow> [] | Some ss \<Rightarrow> ss)"
  from assms Inr have l: "sentences lesson = mapIndexed withPositionalId 0 ss"
    and c: "category lesson = ''custom''"
    by (auto simp: fetchLessonContent_def ss_def)
  have ign: "\<forall>c. fetchLessonContent lessonName randomId (Inr (data\<lparr>dataCategory := c\<rparr>)) = Some lesson"
    using assms Inr by (simp add: fetchLessonContent_def)
  have len: "length (sentences lesson) = length ss"
    by (simp add: l length_mapIndexed)
  have "\<forall>i < length (sentences lesson).
          sid (sentences lesson ! i) = ''s-'' @ toStringNat i \<and>
          original (sentences lesson ! i) = rawOriginal (ss ! i) \<and>
          translation (sentences lesson ! i) = rawTranslation (ss ! i)"
    by (simp add: l length_mapIndexed nth_mapIndexed withPositionalId_def)
  with c ign len Inr show ?thesis
    unfolding ss_def by blast
qed

theorem fetchLessonContent_custom_positional_witness:
  "fetchLessonContent ''Lun Yu'' ''k3x9q0zra''
     (Inr \<lparr>dataTitle = None, dataCategory = Some ''middle'',
           dataSentences = Some [\<lparr>rawId = Some ''first'', rawOriginal = ''a'', rawTranslation = ''b''\<rparr>,
                                 \<lparr>rawId = None, rawOriginal = ''c'', rawTranslation = ''d''\<rparr>]\<rparr>)
   = Some \<lparr>lid = ''k3x9q0zra'', title = ''Lun Yu'', author = None, category = ''custom'',
           sentences = [\<lparr>sid = ''s-0'', original = ''a'', translation = ''b''\<rparr>,
                        \<lparr>sid = ''s-1'', original = ''c'', translation = ''d''\<rparr>]\<rparr>
   \<and> category \<lparr>lid = ''k3x9q0zra'', title = ''Lun Yu'', author = None, category = ''custom'',
           sentences = [\<lparr>sid = ''s-0'', original = ''a'', translation = ''b''\<rparr>,
                        \<lparr>sid = ''s-1'', original = ''c'', translation = ''d''\<rparr>]\<rparr> = ''custom''"
proof -
  have h: "fetchLessonContent ''Lun Yu'' ''k3x9q0zra''
     (Inr \<lparr>dataTitle = None, dataCategory = Some ''middle'',
           dataSentences = Some [\<lparr>rawId = Some ''first'', rawOriginal = ''a'', rawTranslation = ''b''\<rparr>,
                                 \<lparr>rawId = None, rawOriginal = ''c'', rawTranslation = ''d''\<rparr>]\<rparr>)
   = Some \<lparr>lid = ''k3x9q0zra'', title = ''Lun Yu'', author = None, category = ''custom'',
           sentences = [\<lparr>sid = ''s-0'', original = ''a'', translation = ''b''\<rparr>,
                        \<lparr>sid = ''s-1'', original = ''c'', translation = ''d''\<rparr>]\<rparr>"
    by (simp add: fetchLessonContent_def withPositionalId_def toStringNat_digit digitChar_def)
  from fetchLessonContent_custom_positional [OF h] h show ?thesis by blast
qed

subsection \<open>Restoring the application state\<close>

text \<open>
  Claim C9. Whatever state was saved, loading it gives a state that shows the home view and is
  not armed, and whose current lesson and schedule list are the saved ones.
\<close>

theorem initialAppState_restores:
  "\<exists>state. initialAppState (Some (Inr parsed)) mockLesson = Inr state \<and>
     currentView state = VHome \<and> isAutoModeArmed state = False \<and>
     currentLesson state = currentLesson parsed \<and> schedules state = schedules parsed"
  by (simp add: initialAppState_def)

subsection \<open>The schedule check\<close>

lemma find_map_update:
  assumes "\<And>x. P (g x) = P x"
  shows "find P (map g xs) = map_option g (find P xs)"
  using assms by (induction xs) simp_all

text \<open>
  Claim C8. At a check, with the clock at an hour below 24 and a minute below 60, the view is
  switched to the player exactly when some entry is enabled, lists the current weekday and has
  the current time, cut to the minute, as its start time, and the view is not the player
  already; otherwise nothing changes. The seconds of the clock and the end times of the
  entries have no influence, and the entry found is the first one in list order that matches.
\<close>

theorem checkSchedule_trigger:
  assumes "getHours now < 24" and "getMinutes now < 60"
  shows "checkSchedule state now =
           (if (\<exists>s \<in> set (schedules state).
                  enabled s \<and> getDay now \<in> set (repeatDays s) \<and>
                  startTime s = minuteStamp (getHours now) (getMinutes now)) \<and>
               currentView state \<noteq> VPlayer
            then state\<lparr>currentView := VPlayer\<rparr> else state) \<and>
         checkSchedule state (now\<lparr>getSeconds := sec\<rparr>) = checkSchedule state now \<and>
         checkSchedule (state\<lparr>schedules := map (\<lambda>s. s\<lparr>endTime := f s\<rparr>) (schedules state)\<rparr>) now =
           (checkSchedule state now)\<lparr>schedules := map (\<lambda>s. s\<lparr>endTime := f s\<rparr>) (schedules state)\<rparr> \<and>
         (\<forall>s. activeSchedule state now = Some s \<longrightarrow>
            (\<exists>before after. schedules state = before @ s # after \<and>
               scheduleMatches now s \<and> (\<forall>x \<in> set before. \<not> scheduleMatches now x)))"
proof -
  have stamp: "currentHhMm now = minuteStamp (getHours now) (getMinutes now)"
    using assms by (rule currentHhMm_minuteStamp)
  have found: "activeSchedule state now \<noteq> None \<longleftrightarrow>
      (\<exists>s \<in> set (schedules state).
          enabled s \<and> getDay now \<in> set (repeatDays s) \<and>
          startTime s = minuteStamp (getHours now) (getMinutes now))"
    by (auto simp: activeSchedule_def find_None_iff scheduleMatches_def stamp)
  have a: "checkSchedule state now =
           (if (\<exists>s \<in> set (schedules state).
                  enabled s \<and> getDay now \<in> set (repeatDays s) \<and>
                  startTime s = minuteStamp (getHours now) (getMinutes now)) \<and>
               currentView state \<noteq> VPlayer
            then state\<lparr>currentView := VPlayer\<rparr> else state)"
    using found by (auto simp: checkSchedule_def setView_def)
  have "scheduleMatches (now\<lparr>getSeconds := sec\<rparr>) = scheduleMatches now"
    by (rule ext) (simp add: scheduleMatches_def currentHhMm_def)
  then have b: "checkSchedule state (now\<lparr>getSeconds := sec\<rparr>) = checkSchedule state now"
    by (simp add: checkSchedule_def activeSchedule_def)
  have "activeSchedule (state\<lparr>schedules := map (\<lambda>s. s\<lparr>endTime := f s\<rparr>) (schedules state)\<rparr>) now
        = map_option (\<lambda>s. s\<lparr>endTime := f s\<rparr>) (activeSchedule state now)"
    unfolding activeSchedule_def
    by (simp add: find_map_update scheduleMatches_def)
  then have c: "checkSchedule (state\<lparr>schedules := map (\<lambda>s. s\<lparr>endTime := f s\<rparr>) (schedules state)\<rparr>) now =
           (checkSchedule state now)\<lparr>schedules := map (\<lambda>s. s\<lparr>endTime := f s\<rparr>) (schedules state)\<rparr>"
    by (simp add: checkSchedule_def setView_def)
  have d: "\<forall>s. activeSchedule state now = Some s \<longrightarrow>
            (\<exists>before after. schedules state = before @ s # after \<and>
               scheduleMatches now s \<and> (\<forall>x \<in> set before. \<not> scheduleMatches now x))"
  proof (intro allI impI)
    fix s assume "activeSchedule state now = Some s"
    then obtain i where i: "i < length (schedules state)" "scheduleMatches now (schedules state ! i)"
      "s = schedules state ! i" "\<forall>j<i. \<not> scheduleMatches now (schedules state ! j)"
      unfolding activeSchedule_def find_Some_iff by blast
    let ?xs = "schedules state"
    have "?xs = take i ?xs @ s # drop (Suc i) ?xs"
      using i by (simp add: id_take_nth_drop)
    moreover have "\<forall>x \<in> set (take i ?xs). \<not> scheduleMatches now x"
      using i by (auto simp: in_set_conv_nth)
    ultimately show "\<exists>before after. schedules state = before @ s # after \<and>
               scheduleMatches now s \<and> (\<forall>x \<in> set before. \<not> scheduleMatches now x)"
      using i by blast
  qed
  from a b c d show ?thesis by blast
qed

text \<open>
  The schedule of the default state on a Monday at 07:00:30, from the home view: the first
  entry matches and the view becomes the player.
\<close>

theorem checkSchedule_trigger_witness:
  "getHours \<lparr>getHours = 7, getMinutes = 0, getSeconds = 30, getDay = 1\<rparr> < 24 \<and>
   getMinutes \<lparr>getHours = 7, getMinutes = 0, getSeconds = 30, getDay = 1\<rparr> < 60 \<and>
   checkSchedule \<lparr>currentView = VHome, currentLesson = None, schedules = defaultSchedules,
                   isAutoModeArmed = True\<rparr>
     \<lparr>getHours = 7, getMinutes = 0, getSeconds = 30, getDay = 1\<rparr>
   = \<lparr>currentView = VPlayer, currentLesson = None, schedules = defaultSchedules,
      isAutoModeArmed = True\<rparr>"
proof -
  have h: "getHours \<lparr>getHours = 7, getMinutes = 0, getSeconds = 30, getDay = 1\<rparr> < 24"
    and m: "getMinutes \<lparr>getHours = 7, getMinutes = 0, getSeconds = 30, getDay = 1\<rparr> < 60"
    by simp_all
  from checkSchedule_trigger [OF h m,
      of "\<lparr>currentView = VHome, currentLesson = None, schedules = defaultSchedules,
           isAutoModeArmed = True\<rparr>" 0 endTime]
  show ?thesis
    by (simp add: defaultSchedules_def minuteStamp_def digitChar_def)
qed

subsection \<open>PCM decoding\<close>

declare fillChannel.simps [simp del]

lemma fillChannel_length: "length (fillChannel d n i ch) = length ch"
proof (induction d n i ch rule: fillChannel.induct)
  case (1 d n i ch)
  then show ?case by (subst fillChannel.simps) simp
qed

lemma fillChannel_nth:
  "n \<le> length ch \<Longrightarrow> j < n \<Longrightarrow>
   fillChannel d n i ch ! j = (if i \<le> j then real_of_int (sint (d ! j)) / 32768 else ch ! j)"
proof (induction d n i ch rule: fillChannel.induct)
  case (1 d n i ch)
  show ?case
  proof (cases "i < n")
    case True
    have "fillChannel d n i ch ! j =
          fillChannel d n (Suc i) (ch[i := real_of_int (sint (d ! i)) / 32768]) ! j"
      using True by (subst fillChannel.simps) simp
    also have "\<dots> = (if Suc i \<le> j then real_of_int (sint (d ! j)) / 32768
                     else (ch[i := real_of_int (sint (d ! i)) / 32768]) ! j)"
      using "1.IH" [OF True] "1.prems" by simp
    finally show ?thesis using "1.prems" True
      by (auto simp: nth_list_update not_less_eq_eq)
  next
    case False
    then show ?thesis using "1.prems" by (subst fillChannel.simps) simp
  qed
qed

lemma uint_int16_bytes:
  "uint ((ucast (lo :: byte) :: 16 word) OR push_bit 8 (ucast (hi :: byte) :: 16 word))
   = uint lo + 256 * uint hi"
proof -
  have lo: "0 \<le> uint lo" "uint lo < 256" using uint_lt2p [of lo] by simp_all
  have hi: "0 \<le> uint hi" "uint hi < 256" using uint_lt2p [of hi] by simp_all
  have "(ucast lo :: 16 word) OR push_bit 8 (ucast hi :: 16 word) = word_cat hi lo"
    by (simp add: word_cat_eq_push_bit_or or.commute)
  also have "\<dots> = push_bit 8 (ucast hi) + ucast lo"
    by (simp add: word_cat_eq)
  finally have "uint ((ucast lo :: 16 word) OR push_bit 8 (ucast hi :: 16 word))
      = uint (push_bit 8 (ucast hi :: 16 word) + ucast lo)" by simp
  also have "\<dots> = (uint hi * 256 + uint lo) mod 65536"
    by (simp add: uint_word_ariths push_bit_eq_mult uint_up_ucast is_up mod_simps take_bit_eq_mod)
  also have "\<dots> = uint lo + 256 * uint hi"
    using lo hi by simp
  finally show ?thesis .
qed

lemma sint_int16_bytes:
  "sint ((ucast (lo :: byte) :: 16 word) OR push_bit 8 (ucast (hi :: byte) :: 16 word))
   = int16le lo hi"
proof -
  have lo: "0 \<le> uint lo" "uint lo < 256" using uint_lt2p [of lo] by simp_all
  have hi: "0 \<le> uint hi" "uint hi < 256" using uint_lt2p [of hi] by simp_all
  define u where "u = uint lo + 256 * uint hi"
  have u: "0 \<le> u" "u < 65536" using lo hi by (simp_all add: u_def)
  have shifted: "(u + 32768) mod 65536 = (if u < 32768 then u + 32768 else u - 32768)"
  proof (cases "u < 32768")
    case True
    then show ?thesis using u by simp
  next
    case False
    have "u + 32768 = u - 32768 + 65536" by arith
    then have "(u + 32768) mod 65536 = (u - 32768 + 65536) mod 65536" by (rule arg_cong)
    also have "\<dots> = (u - 32768) mod 65536" by (simp only: mod_add_self2)
    also have "\<dots> = u - 32768" using u False by simp
    finally show ?thesis using False by simp
  qed
  have "signed_take_bit 15 u = (if u < 32768 then u else u - 65536)"
    using shifted by (simp add: signed_take_bit_eq_take_bit_shift take_bit_eq_mod)
  then show ?thesis
    by (simp add: sint_uint uint_int16_bytes int16le_def u_def Let_def)
qed

lemma sint_int16At: "sint (int16At buf off) = int16le (buf ! off) (buf ! (off + 1))"
  unfolding int16At_def by (rule sint_int16_bytes)

lemma newInt16Array_fresh:
  "newInt16Array B 0 (length B div 2) = Inr (map (\<lambda>i. int16At B (2 * i)) [0..<length B div 2])"
  by (simp add: newInt16Array_def)

text \<open>
  The decoder with any context that hands out a channel of the requested number of frames.
\<close>

lemma decodeAudioData_any_context:
  assumes "createBuffer ctx (length B div 2) = Inr channel"
    and "length channel = length B div 2"
  shows "\<exists>samples. decodeAudioData (newUint8Array B) ctx = Inr samples \<and>
           length samples = length B div 2 \<and>
           (\<forall>i < length B div 2.
              samples ! i = real_of_int (int16le (B ! (2 * i)) (B ! (2 * i + 1))) / 32768) \<and>
           (even (length B) \<longrightarrow>
              decodeAudioData (newUint8Array (B @ [b])) ctx = Inr samples)"
proof -
  let ?n = "length B div 2"
  let ?d = "map (\<lambda>i. int16At B (2 * i)) [0..<?n]"
  let ?s = "fillChannel ?d ?n 0 channel"
  have dec: "decodeAudioData (newUint8Array B) ctx = Inr ?s"
    using assms(1) by (simp add: decodeAudioData_def newUint8Array_def newInt16Array_fresh Let_def)
  have len: "length ?s = ?n"
    using assms(2) by (simp add: fillChannel_length)
  have nth: "\<forall>i < ?n. ?s ! i = real_of_int (int16le (B ! (2 * i)) (B ! (2 * i + 1))) / 32768"
    using assms(2) by (simp add: fillChannel_nth sint_int16At)
  have odd: "even (length B) \<longrightarrow> decodeAudioData (newUint8Array (B @ [b])) ctx = Inr ?s"
  proof
    assume e: "even (length B)"
    then have n': "length (B @ [b]) div 2 = ?n" by auto
    have "\<And>i. i < ?n \<Longrightarrow> int16At (B @ [b]) (2 * i) = int16At B (2 * i)"
    proof -
      fix i assume "i < ?n"
      then have "2 * i < length B" "2 * i + 1 < length B" using e by auto
      then show "int16At (B @ [b]) (2 * i) = int16At B (2 * i)"
        by (simp add: int16At_def nth_append)
    qed
    then have m: "map (\<lambda>i. int16At (B @ [b]) (2 * i)) [0..<?n] = ?d" by simp
    have "decodeAudioData (newUint8Array (B @ [b])) ctx =
          Inr (fillChannel (map (\<lambda>i. int16At (B @ [b]) (2 * i)) [0..<?n]) ?n 0 channel)"
      using assms(1) n' newInt16Array_fresh [of "B @ [b]"]
      by (simp add: decodeAudioData_def newUint8Array_def Let_def)
    then show "decodeAudioData (newUint8Array (B @ [b])) ctx = Inr ?s"
      by (simp only: m)
  qed
  from dec len nth odd show ?thesis by blast
qed

text \<open>Every sequence of fewer than two bytes makes the decoder ask for zero frames.\<close>

lemma decodeAudioData_short_buffer:
  "length B < 2 \<Longrightarrow> decodeAudioData (newUint8Array B) webAudioContext = Inl NotSupportedError"
  by (simp add: decodeAudioData_def newUint8Array_def newInt16Array_def webAudioContext_def)

text \<open>
  A single byte: zero frames are requested from the context, which refuses them, and the
  decoder raises.
\<close>

theorem decodeAudioData_single_byte_counterexample:
  "decodeAudioData (newUint8Array [0]) webAudioContext = Inl NotSupportedError"
  by (simp add: decodeAudioData_def newUint8Array_def newInt16Array_def webAudioContext_def)

text \<open>
  Claim C6, for sequences of at least two bytes. For every byte sequence \<open>B\<close> of at least two
  bytes delivered by the speech source, decoding succeeds with exactly \<open>\<lfloor>length B / 2\<rfloor>\<close>
  samples; the sample at position \<open>i\<close> is the signed 16-bit little-endian integer at byte
  offset \<open>2i\<close>, divided by 32768; and a byte after an even number of bytes is dropped: the
  result is that of the sequence without it.
\<close>

theorem decodeAudioData_samples:
  assumes "2 \<le> length B"
  shows "\<exists>samples. decodeAudioData (newUint8Array B) webAudioContext = Inr samples \<and>
           length samples = length B div 2 \<and>
           (\<forall>i < length B div 2.
              samples ! i = real_of_int (int16le (B ! (2 * i)) (B ! (2 * i + 1))) / 32768) \<and>
           (even (length B) \<longrightarrow>
              decodeAudioData (newUint8Array (B @ [b])) webAudioContext = Inr samples)"
proof (rule decodeAudioData_any_context)
  from assms have "length B div 2 \<noteq> 0" by simp
  then show "createBuffer webAudioContext (length B div 2) = Inr (replicate (length B div 2) 0)"
    by (simp add: webAudioContext_def)
  show "length (replicate (length B div 2) (0 :: real)) = length B div 2" by simp
qed

text \<open>Five bytes: two samples, the minimum and the maximum, and the fifth byte dropped.\<close>

theorem decodeAudioData_samples_witness:
  "2 \<le> length [0x00, 0x80, 0xFF, 0x7F, 0x01 :: byte] \<and>
   decodeAudioData (newUint8Array [0x00, 0x80, 0xFF, 0x7F, 0x01]) webAudioContext
     = Inr [- 1, 32767 / 32768]"
proof -
  have five: "length [0x00, 0x80, 0xFF, 0x7F, 0x01 :: byte] div 2 = 2"
    by code_simp
  have l: "2 \<le> length [0x00, 0x80, 0xFF, 0x7F, 0x01 :: byte]"
    by simp
  from decodeAudioData_samples [OF l, of undefined]
  obtain samples where s: "decodeAudioData (newUint8Array [0x00, 0x80, 0xFF, 0x7F, 0x01]) webAudioContext = Inr samples"
    and n: "length samples = 2"
    and v: "\<forall>i < 2. samples ! i =
      real_of_int (int16le ([0x00, 0x80, 0xFF, 0x7F, 0x01] ! (2 * i)) ([0x00, 0x80, 0xFF, 0x7F, 0x01] ! (2 * i + 1))) / 32768"
    unfolding five by auto
  have "samples ! 0 = - 1"
    using v [rule_format, of 0] by (simp add: int16le_def)
  moreover have "samples ! 1 = 32767 / 32768"
    using v [rule_format, of 1] by (simp add: int16le_def)
  ultimately have "samples = [- 1, 32767 / 32768]"
    using n by (cases samples; cases "tl samples"; cases "tl (tl samples)") auto
  with s l show ?thesis by simp
qed

subsection \<open>The player: rendering and the effect\<close>

lemmas source_defs = createBufferSource_def startSource_def stopSource_def detachSource_def
  disconnectSource_def

lemmas player_defs = step_def handle_def afterRender_def depsChanged_def playbackEffect_def
  speakSentence_def stopAllAudio_def speechDone_def pointSpeechDone_def autoSpeechDone_def
  source_defs playNextSentence_def toggleAutoPlay_def toggleLoop_def prevClick_def nextClick_def
  sourceEnded_def autoEnded_def timerFired_def skipAfterFailure_def unmount_def

lemmas run_defs = player_defs initialPlayer_def threeUnits_def decodeAudioData_def
  newUint8Array_def newInt16Array_def webAudioContext_def int16At_def fillChannel.simps
  Let_def

lemma truthy_simps [simp]:
  "truthy None = False"
  "truthy (Some s) = (s \<noteq> [])"
  by (simp_all add: truthy_def)

lemma stopAllAudio_fields [simp]:
  "currentIndex (stopAllAudio p) = currentIndex p"
  "isPlaying (stopAllAudio p) = isPlaying p"
  "isLooping (stopAllAudio p) = isLooping p"
  "loadingAudio (stopAllAudio p) = loadingAudio p"
  "loadingSpeechId (stopAllAudio p) = loadingSpeechId p"
  "statusMsg (stopAllAudio p) = statusMsg p"
  "isComponentMounted (stopAllAudio p) = isComponentMounted p"
  "requests (stopAllAudio p) = requests p"
  "timers (stopAllAudio p) = timers p"
  "activeSpeechId (stopAllAudio p) = None"
  "currentSourceRef (stopAllAudio p) = None"
  "length (sources (stopAllAudio p)) = length (sources p)"
  by (simp_all add: stopAllAudio_def source_defs split: option.splits)

lemma playNextSentence_fields [simp]:
  "currentIndex (playNextSentence lesson c l k p) = currentIndex p"
  "isPlaying (playNextSentence lesson c l k p) = isPlaying p"
  "isLooping (playNextSentence lesson c l k p) = isLooping p"
  "activeSpeechId (playNextSentence lesson c l k p) = activeSpeechId p"
  "loadingSpeechId (playNextSentence lesson c l k p) = loadingSpeechId p"
  "isComponentMounted (playNextSentence lesson c l k p) = isComponentMounted p"
  "currentSourceRef (playNextSentence lesson c l k p) = currentSourceRef p"
  "sources (playNextSentence lesson c l k p) = sources p"
  "timers (playNextSentence lesson c l k p) = timers p"
  "deviceLog (playNextSentence lesson c l k p) = deviceLog p"
  by (simp_all add: playNextSentence_def Let_def)

lemma afterRender_fields [simp]:
  "currentIndex (afterRender lesson old new) = currentIndex new"
  "isPlaying (afterRender lesson old new) = isPlaying new"
  "isLooping (afterRender lesson old new) = isLooping new"
  "loadingSpeechId (afterRender lesson old new) = loadingSpeechId new"
  "isComponentMounted (afterRender lesson old new) = isComponentMounted new"
  "timers (afterRender lesson old new) = timers new"
  "length (sources (afterRender lesson old new)) = length (sources new)"
  by (simp_all add: afterRender_def playbackEffect_def)

lemma afterRender_active_None [simp]:
  "activeSpeechId new = None \<Longrightarrow> activeSpeechId (afterRender lesson old new) = None"
  by (simp add: afterRender_def playbackEffect_def)

lemma afterRender_unchanged: "\<not> depsChanged old new \<Longrightarrow> afterRender lesson old new = new"
  by (simp add: afterRender_def)

lemma afterRender_idle_requests:
  "\<not> isPlaying new \<Longrightarrow> requests (afterRender lesson old new) = requests new"
  by (simp add: afterRender_def playbackEffect_def)


subsection \<open>One source at a time\<close>

text \<open>
  Claim C1. Two point-reads requested one after the other, both answered with audio: the
  second answer starts its source while the source of the first is still playing, and two
  sources produce sound. \<^verbatim>\<open>speakSentence\<close> calls \<^verbatim>\<open>stopAllAudio\<close> before it waits for the
  speech, not between the answer and \<^verbatim>\<open>start\<close> as \<^verbatim>\<open>playNextSentence\<close> does.
\<close>

theorem overlapping_point_reads_play_together:
  "activeSources (run threeUnits webAudioContext
      [SpeakSentence ''s-0-orig'', SpeakSentence ''s-1-orig'',
       SpeechDone 0 (Some [0, 0]), SpeechDone 1 (Some [0, 0])] initialPlayer) = 2"
  by (simp add: run_defs activeSources_def)

subsection \<open>Navigation\<close>

text \<open>
  In a lesson without units the next button is enabled (the index 0 differs from \<open>n - 1\<close>)
  and a click on it leaves the index \<open>-1\<close>.
\<close>

theorem next_on_empty_lesson_counterexample:
  "currentIndex (step noUnits webAudioContext NextClick initialPlayer) = - 1 \<and>
   \<not> validIndex noUnits (currentIndex (step noUnits webAudioContext NextClick initialPlayer))"
  by (simp add: step_def handle_def nextClick_def initialPlayer_def noUnits_def validIndex_def)

lemma prevClick_clamp:
  "validIndex lesson (currentIndex p) \<Longrightarrow>
   currentIndex (prevClick p) = clamp (currentIndex p - 1) 0 (int (length (sentences lesson)) - 1)"
  by (auto simp: prevClick_def clamp_def validIndex_def)

lemma nextClick_clamp:
  "validIndex lesson (currentIndex p) \<Longrightarrow>
   currentIndex (nextClick lesson p) = clamp (currentIndex p + 1) 0 (int (length (sentences lesson)) - 1)"
  by (auto simp: nextClick_def clamp_def validIndex_def)

lemma clamp_valid: "0 < length (sentences lesson) \<Longrightarrow>
   validIndex lesson (clamp i 0 (int (length (sentences lesson)) - 1))"
  by (auto simp: clamp_def validIndex_def)

lemma step_navigation_valid:
  assumes "0 < length (sentences lesson)" and "validIndex lesson (currentIndex p)"
    and "isNavigation ev"
  shows "validIndex lesson (currentIndex (step lesson ctx ev p))"
proof -
  have "validIndex lesson (currentIndex (prevClick p))"
    using assms(1,2) by (simp add: prevClick_clamp clamp_valid)
  moreover have "validIndex lesson (currentIndex (nextClick lesson p))"
    using assms(1,2) by (simp add: nextClick_clamp clamp_valid)
  ultimately show ?thesis
    using assms(2,3) by (auto simp: step_def handle_def isNavigation_def)
qed

lemma run_navigation_valid:
  "0 < length (sentences lesson) \<Longrightarrow> validIndex lesson (currentIndex p) \<Longrightarrow>
   \<forall>ev \<in> set evs. isNavigation ev \<Longrightarrow>
   validIndex lesson (currentIndex (run lesson ctx evs p))"
proof (induction evs arbitrary: p)
  case Nil
  then show ?case by simp
next
  case (Cons ev evs)
  from Cons.prems have "validIndex lesson (currentIndex (step lesson ctx ev p))"
    by (simp add: step_navigation_valid)
  with Cons show ?case by simp
qed

text \<open>
  Claim C7, for lessons that have a unit. From a valid index \<open>c\<close> of a lesson of \<open>n \<ge> 1\<close>
  units, the previous button leaves \<open>clamp (c - 1) 0 (n - 1)\<close>, the next button
  \<open>clamp (c + 1) 0 (n - 1)\<close> and the click on the sentence at position \<open>idx < n\<close> leaves
  \<open>idx\<close>, which is \<open>clamp idx 0 (n - 1)\<close>; after any sequence of clicks on the two buttons
  the index is a valid one.
\<close>

theorem navigation_clamps:
  assumes "0 < length (sentences lesson)" and "validIndex lesson (currentIndex p)"
    and "isComponentMounted p"
  shows "currentIndex (step lesson ctx PrevClick p) =
           clamp (currentIndex p - 1) 0 (int (length (sentences lesson)) - 1) \<and>
         currentIndex (step lesson ctx NextClick p) =
           clamp (currentIndex p + 1) 0 (int (length (sentences lesson)) - 1) \<and>
         (\<forall>idx < length (sentences lesson).
            currentIndex (sentenceClick lesson idx p) = int idx \<and>
            int idx = clamp (int idx) 0 (int (length (sentences lesson)) - 1)) \<and>
         (\<forall>evs. (\<forall>ev \<in> set evs. isNavigation ev) \<longrightarrow>
            validIndex lesson (currentIndex (run lesson ctx evs p)))"
proof -
  have "currentIndex (step lesson ctx PrevClick p) =
           clamp (currentIndex p - 1) 0 (int (length (sentences lesson)) - 1)"
    using assms(2,3) by (simp add: step_def handle_def prevClick_clamp)
  moreover have "currentIndex (step lesson ctx NextClick p) =
           clamp (currentIndex p + 1) 0 (int (length (sentences lesson)) - 1)"
    using assms(2,3) by (simp add: step_def handle_def nextClick_clamp)
  moreover have "\<forall>idx < length (sentences lesson).
            currentIndex (sentenceClick lesson idx p) = int idx \<and>
            int idx = clamp (int idx) 0 (int (length (sentences lesson)) - 1)"
    by (auto simp: sentenceClick_def clamp_def Let_def)
  moreover have "\<forall>evs. (\<forall>ev \<in> set evs. isNavigation ev) \<longrightarrow>
            validIndex lesson (currentIndex (run lesson ctx evs p))"
    using assms(1,2) by (simp add: run_navigation_valid)
  ultimately show ?thesis by blast
qed

text \<open>Three units: from the first, two clicks on next and one more, which is not delivered.\<close>

theorem navigation_clamps_witness:
  "0 < length (sentences threeUnits) \<and> validIndex threeUnits (currentIndex initialPlayer) \<and>
   isComponentMounted initialPlayer \<and>
   currentIndex (step threeUnits webAudioContext PrevClick initialPlayer) = 0 \<and>
   currentIndex (step threeUnits webAudioContext NextClick initialPlayer) = 1 \<and>
   currentIndex (sentenceClick threeUnits 2 initialPlayer) = 2 \<and>
   validIndex threeUnits
     (currentIndex (run threeUnits webAudioContext [NextClick, NextClick, NextClick] initialPlayer))"
proof -
  have n: "0 < length (sentences threeUnits)" by (simp add: threeUnits_def)
  have v: "validIndex threeUnits (currentIndex initialPlayer)"
    by (simp add: validIndex_def threeUnits_def initialPlayer_def)
  have m: "isComponentMounted initialPlayer" by (simp add: initialPlayer_def)
  have nav: "\<forall>ev \<in> set [NextClick, NextClick, NextClick]. isNavigation ev"
    by (simp add: isNavigation_def)
  have len: "int (length (sentences threeUnits)) - 1 = 2" by (simp add: threeUnits_def)
  have c0: "currentIndex initialPlayer = 0" by (simp add: initialPlayer_def)
  note T = navigation_clamps [OF n v m, of webAudioContext]
  have a: "currentIndex (step threeUnits webAudioContext PrevClick initialPlayer) = 0"
    using T [THEN conjunct1] by (simp add: len c0 clamp_def)
  have b: "currentIndex (step threeUnits webAudioContext NextClick initialPlayer) = 1"
    using T [THEN conjunct2, THEN conjunct1] by (simp add: len c0 clamp_def)
  have "2 < length (sentences threeUnits)" by (simp add: threeUnits_def)
  with T [THEN conjunct2, THEN conjunct2, THEN conjunct1]
  have c: "currentIndex (sentenceClick threeUnits 2 initialPlayer) = 2" by fastforce
  have d: "validIndex threeUnits
     (currentIndex (run threeUnits webAudioContext [NextClick, NextClick, NextClick] initialPlayer))"
    using T [THEN conjunct2, THEN conjunct2, THEN conjunct2] nav by blast
  from n v m a b c d show ?thesis by simp
qed

subsection \<open>Concrete states\<close>

lemma narratingFirst_eq:
  "narratingFirst =
     \<lparr>currentIndex = 0, isPlaying = True, isLooping = False, loadingAudio = False,
      activeSpeechId = None, loadingSpeechId = None, statusMsg = None,
      isComponentMounted = True, currentSourceRef = Some 0,
      sources = [\<lparr>srcBuffer = [0], onended = Some (OnAutoEnded 0 False), phase = Playing,
                  connected = True\<rparr>],
      requests = [Settled], timers = [], deviceLog = [Start 0]\<rparr>"
  by (simp add: narratingFirst_def run_defs)




lemma pointRequested_eq:
  "pointRequested =
     \<lparr>currentIndex = 0, isPlaying = False, isLooping = False, loadingAudio = False,
      activeSpeechId = None, loadingSpeechId = Some ''s-1-orig'', statusMsg = Some Preparing,
      isComponentMounted = True, currentSourceRef = None,
      sources = [\<lparr>srcBuffer = [0], onended = None, phase = Halted, connected = False\<rparr>],
      requests = [Settled, PointRequest ''s-1-orig''], timers = [],
      deviceLog = [Start 0, Detach 0, Stop 0, Disconnect 0]\<rparr>"
  by (simp add: pointRequested_def narratingFirst_eq run_defs)

lemma pointReading_eq:
  "pointReading =
     \<lparr>currentIndex = 0, isPlaying = False, isLooping = False, loadingAudio = False,
      activeSpeechId = Some ''s-1-orig'', loadingSpeechId = None, statusMsg = None,
      isComponentMounted = True, currentSourceRef = Some 1,
      sources = [\<lparr>srcBuffer = [0], onended = None, phase = Halted, connected = False\<rparr>,
                 \<lparr>srcBuffer = [0], onended = Some OnPointEnded, phase = Playing,
                  connected = True\<rparr>],
      requests = [Settled, Settled], timers = [],
      deviceLog = [Start 0, Detach 0, Stop 0, Disconnect 0, Start 1]\<rparr>"
  by (simp add: pointReading_def pointRequested_eq run_defs)



subsection \<open>Completion of a unit in the narration\<close>






text \<open>
  The flag a handler carries is the value of \<^verbatim>\<open>isLooping\<close> at the render whose effect issued
  the request: the effect asks for the current index with the current flag.
\<close>

lemma effect_request_captures_flag:
  assumes "isComponentMounted new" and "isPlaying new" and "depsChanged old new"
    and "validIndex lesson (currentIndex new)"
  shows "requests (afterRender lesson old new)
           = requests new @ [AutoRequest (currentIndex new) (isLooping new)]"
  using assms
  by (simp add: afterRender_def playbackEffect_def playNextSentence_def Let_def validIndex_def)



subsection \<open>Speech that does not come: the narration\<close>




lemma skipAfterFailure_fields [simp]:
  "requests (skipAfterFailure lesson k q) = requests q"
  "isLooping (skipAfterFailure lesson k q) = isLooping q"
  "sources (skipAfterFailure lesson k q) = sources q"
  by (simp_all add: skipAfterFailure_def)



subsection \<open>Point-reading\<close>

lemma step_speakSentence:
  assumes "isComponentMounted p"
  shows "step lesson ctx (SpeakSentence ident) p = speakSentence ident p"
proof -
  have a: "\<not> isPlaying (speakSentence ident p)" "activeSpeechId (speakSentence ident p) = None"
    by (simp_all add: speakSentence_def Let_def)
  have "playbackEffect lesson (speakSentence ident p) = speakSentence ident p"
    using a by (simp add: playbackEffect_def stopAllAudio_def) (simp add: speakSentence_def Let_def)
  then show ?thesis using assms by (simp add: step_def handle_def afterRender_def)
qed

lemma speakSentence_result:
  "\<not> isPlaying (speakSentence ident p)"
  "currentIndex (speakSentence ident p) = currentIndex p"
  "activeSpeechId (speakSentence ident p) = None"
  "currentSourceRef (speakSentence ident p) = None"
  "loadingSpeechId (speakSentence ident p) = Some ident"
  "requests (speakSentence ident p) = requests p @ [PointRequest ident]"
  by (simp_all add: speakSentence_def Let_def)

lemma speakSentence_stops_current:
  "currentSourceRef p = Some i \<Longrightarrow> i < length (sources p) \<Longrightarrow>
   onended (sources (speakSentence ident p) ! i) = None \<and>
   phase (sources (speakSentence ident p) ! i) \<noteq> Playing"
  by (simp add: speakSentence_def Let_def stopAllAudio_def source_defs)

lemma step_point_ended:
  assumes "isComponentMounted p" and "i < length (sources p)"
    and "phase (sources p ! i) = Playing" and "onended (sources p ! i) = Some OnPointEnded"
  shows "activeSpeechId (step lesson ctx (SourceEnded i) p) = None \<and>
         isPlaying (step lesson ctx (SourceEnded i) p) = isPlaying p \<and>
         currentIndex (step lesson ctx (SourceEnded i) p) = currentIndex p \<and>
         (\<not> isPlaying p \<longrightarrow> requests (step lesson ctx (SourceEnded i) p) = requests p)"
  using assms
  by (simp add: step_def handle_def sourceEnded_def Let_def afterRender_idle_requests)

lemma step_point_failed:
  assumes "isComponentMounted p" and "r < length (requests p)"
    and "requests p ! r = PointRequest ident"
  shows "step lesson ctx (SpeechDone r None) p =
           p\<lparr>requests := (requests p)[r := Settled], loadingSpeechId := None,
             statusMsg := Some Absent\<rparr>"
  using assms
  by (simp add: step_def handle_def speechDone_def pointSpeechDone_def Let_def afterRender_def
      depsChanged_def)

text \<open>
  What holds of point-reading in every state of a mounted player, at the click and at the
  end of its own source. A point-read is requested. \<^verbatim>\<open>isPlaying\<close> becomes false and
  the index is unchanged; the source that was current, a point-read or a unit of the
  narration, is detached and no longer playing, and no point-read is marked active; the
  request is pending under the identifier. When the source of a point-read comes to its end,
  the active point-read is cleared, \<^verbatim>\<open>isPlaying\<close> and the index are unchanged, and with
  \<^verbatim>\<open>isPlaying\<close> false no request is issued, so the narration does not resume. When the request
  comes back without audio, the loading mark is cleared, the status reports the absence, and
  the index, \<^verbatim>\<open>isPlaying\<close>, the active point-read and the sources are unchanged.
\<close>

theorem point_read_behaviour:
  assumes "isComponentMounted p"
  shows "(\<not> isPlaying (step lesson ctx (SpeakSentence ident) p) \<and>
          currentIndex (step lesson ctx (SpeakSentence ident) p) = currentIndex p \<and>
          activeSpeechId (step lesson ctx (SpeakSentence ident) p) = None \<and>
          currentSourceRef (step lesson ctx (SpeakSentence ident) p) = None \<and>
          loadingSpeechId (step lesson ctx (SpeakSentence ident) p) = Some ident \<and>
          requests (step lesson ctx (SpeakSentence ident) p) = requests p @ [PointRequest ident] \<and>
          (\<forall>i. currentSourceRef p = Some i \<and> i < length (sources p) \<longrightarrow>
             onended (sources (step lesson ctx (SpeakSentence ident) p) ! i) = None \<and>
             phase (sources (step lesson ctx (SpeakSentence ident) p) ! i) \<noteq> Playing)) \<and>
         (\<forall>i. i < length (sources p) \<and> phase (sources p ! i) = Playing \<and>
              onended (sources p ! i) = Some OnPointEnded \<longrightarrow>
            activeSpeechId (step lesson ctx (SourceEnded i) p) = None \<and>
            isPlaying (step lesson ctx (SourceEnded i) p) = isPlaying p \<and>
            currentIndex (step lesson ctx (SourceEnded i) p) = currentIndex p \<and>
            (\<not> isPlaying p \<longrightarrow> requests (step lesson ctx (SourceEnded i) p) = requests p)) \<and>
         (\<forall>r. r < length (requests p) \<and> requests p ! r = PointRequest ident \<longrightarrow>
            loadingSpeechId (step lesson ctx (SpeechDone r None) p) = None \<and>
            statusMsg (step lesson ctx (SpeechDone r None) p) = Some Absent \<and>
            currentIndex (step lesson ctx (SpeechDone r None) p) = currentIndex p \<and>
            isPlaying (step lesson ctx (SpeechDone r None) p) = isPlaying p \<and>
            activeSpeechId (step lesson ctx (SpeechDone r None) p) = activeSpeechId p \<and>
            sources (step lesson ctx (SpeechDone r None) p) = sources p \<and>
            requests (step lesson ctx (SpeechDone r None) p) = (requests p)[r := Settled])"
proof -
  have a: "\<not> isPlaying (step lesson ctx (SpeakSentence ident) p) \<and>
          currentIndex (step lesson ctx (SpeakSentence ident) p) = currentIndex p \<and>
          activeSpeechId (step lesson ctx (SpeakSentence ident) p) = None \<and>
          currentSourceRef (step lesson ctx (SpeakSentence ident) p) = None \<and>
          loadingSpeechId (step lesson ctx (SpeakSentence ident) p) = Some ident \<and>
          requests (step lesson ctx (SpeakSentence ident) p) = requests p @ [PointRequest ident] \<and>
          (\<forall>i. currentSourceRef p = Some i \<and> i < length (sources p) \<longrightarrow>
             onended (sources (step lesson ctx (SpeakSentence ident) p) ! i) = None \<and>
             phase (sources (step lesson ctx (SpeakSentence ident) p) ! i) \<noteq> Playing)"
    unfolding step_speakSentence [OF assms]
    using speakSentence_stops_current [of p _ ident] by (simp add: speakSentence_result)
  have b: "\<forall>i. i < length (sources p) \<and> phase (sources p ! i) = Playing \<and>
              onended (sources p ! i) = Some OnPointEnded \<longrightarrow>
            activeSpeechId (step lesson ctx (SourceEnded i) p) = None \<and>
            isPlaying (step lesson ctx (SourceEnded i) p) = isPlaying p \<and>
            currentIndex (step lesson ctx (SourceEnded i) p) = currentIndex p \<and>
            (\<not> isPlaying p \<longrightarrow> requests (step lesson ctx (SourceEnded i) p) = requests p)"
    using step_point_ended [OF assms] by blast
  have c: "\<forall>r. r < length (requests p) \<and> requests p ! r = PointRequest ident \<longrightarrow>
            loadingSpeechId (step lesson ctx (SpeechDone r None) p) = None \<and>
            statusMsg (step lesson ctx (SpeechDone r None) p) = Some Absent \<and>
            currentIndex (step lesson ctx (SpeechDone r None) p) = currentIndex p \<and>
            isPlaying (step lesson ctx (SpeechDone r None) p) = isPlaying p \<and>
            activeSpeechId (step lesson ctx (SpeechDone r None) p) = activeSpeechId p \<and>
            sources (step lesson ctx (SpeechDone r None) p) = sources p \<and>
            requests (step lesson ctx (SpeechDone r None) p) = (requests p)[r := Settled]"
    by (simp add: step_point_failed [OF assms])
  from a b c show ?thesis by blast
qed

text \<open>
  Three units, unit 0 of the narration playing. A point-read of the second sentence halts the
  narration at index 0; when its audio has come and its source ends, no point-read is active
  and the narration stays halted; had the audio not come, the status would report it and the
  index would be 0 as well.
\<close>

theorem point_read_behaviour_witness:
  "isComponentMounted narratingFirst \<and> isPlaying narratingFirst \<and>
   currentSourceRef narratingFirst = Some 0 \<and> 0 < length (sources narratingFirst) \<and>
   \<not> isPlaying pointRequested \<and> currentIndex pointRequested = currentIndex narratingFirst \<and>
   onended (sources pointRequested ! 0) = None \<and> phase (sources pointRequested ! 0) \<noteq> Playing \<and>
   isComponentMounted pointReading \<and> 1 < length (sources pointReading) \<and>
   phase (sources pointReading ! 1) = Playing \<and>
   onended (sources pointReading ! 1) = Some OnPointEnded \<and>
   activeSpeechId pointReading = Some ''s-1-orig'' \<and>
   activeSpeechId (step threeUnits webAudioContext (SourceEnded 1) pointReading) = None \<and>
   \<not> isPlaying (step threeUnits webAudioContext (SourceEnded 1) pointReading) \<and>
   isComponentMounted pointRequested \<and> 1 < length (requests pointRequested) \<and>
   requests pointRequested ! 1 = PointRequest ''s-1-orig'' \<and>
   statusMsg (step threeUnits webAudioContext (SpeechDone 1 None) pointRequested) = Some Absent \<and>
   loadingSpeechId (step threeUnits webAudioContext (SpeechDone 1 None) pointRequested) = None \<and>
   currentIndex (step threeUnits webAudioContext (SpeechDone 1 None) pointRequested) = 0"
proof -
  have N: "isComponentMounted narratingFirst" and N': "isPlaying narratingFirst"
    "currentSourceRef narratingFirst = Some 0" "0 < length (sources narratingFirst)"
    by (simp_all add: narratingFirst_eq)
  note T1 = point_read_behaviour [OF N, of threeUnits webAudioContext "''s-1-orig''",
      THEN conjunct1, folded pointRequested_def]
  have a: "\<not> isPlaying pointRequested" "currentIndex pointRequested = currentIndex narratingFirst"
    using T1 by simp_all
  have b: "onended (sources pointRequested ! 0) = None \<and> phase (sources pointRequested ! 0) \<noteq> Playing"
    using T1 N' by blast
  have P: "isComponentMounted pointReading" and P': "1 < length (sources pointReading)"
    "phase (sources pointReading ! 1) = Playing"
    "onended (sources pointReading ! 1) = Some OnPointEnded"
    "activeSpeechId pointReading = Some ''s-1-orig''" "\<not> isPlaying pointReading"
    by (simp_all add: pointReading_eq)
  have c: "activeSpeechId (step threeUnits webAudioContext (SourceEnded 1) pointReading) = None \<and>
           isPlaying (step threeUnits webAudioContext (SourceEnded 1) pointReading) = isPlaying pointReading"
    using point_read_behaviour [OF P, of threeUnits webAudioContext undefined,
        THEN conjunct2, THEN conjunct1] P' by blast
  have Q: "isComponentMounted pointRequested" and Q': "1 < length (requests pointRequested)"
    "requests pointRequested ! 1 = PointRequest ''s-1-orig''" "currentIndex pointRequested = 0"
    by (simp_all add: pointRequested_eq)
  have d: "loadingSpeechId (step threeUnits webAudioContext (SpeechDone 1 None) pointRequested) = None \<and>
      statusMsg (step threeUnits webAudioContext (SpeechDone 1 None) pointRequested) = Some Absent \<and>
      currentIndex (step threeUnits webAudioContext (SpeechDone 1 None) pointRequested)
        = currentIndex pointRequested"
    using point_read_behaviour [OF Q, of threeUnits webAudioContext "''s-1-orig''",
        THEN conjunct2, THEN conjunct2] Q' by blast
  from N N' a b P P' c Q Q' d show ?thesis by simp
qed

text \<open>
  Claim C4. Work that is pending when a point-read is requested is not cancelled.

  The narration has requested unit 0 and waits for the speech; a point-read of the second
  sentence is requested; the speech for unit 0 arrives. The continuation of
  \<^verbatim>\<open>playNextSentence\<close> tests the \<^verbatim>\<open>isPlaying\<close> of its closure, which is true, and starts the
  source of unit 0 although \<^verbatim>\<open>isPlaying\<close> is false; when that source ends the index is 1.

  A point-read of the first sentence waits for its speech; a point-read of the second sentence
  is requested; the speech for the first arrives. It becomes the active point-read and plays.
\<close>

theorem point_read_leaves_pending_work:
  "\<not> isPlaying (reached threeUnits webAudioContext
      [ToggleAutoPlay, SpeakSentence ''s-1-orig'', SpeechDone 0 (Some [0, 0])]) \<and>
   phase (sources (reached threeUnits webAudioContext
      [ToggleAutoPlay, SpeakSentence ''s-1-orig'', SpeechDone 0 (Some [0, 0])]) ! 0) = Playing \<and>
   onended (sources (reached threeUnits webAudioContext
      [ToggleAutoPlay, SpeakSentence ''s-1-orig'', SpeechDone 0 (Some [0, 0])]) ! 0)
     = Some (OnAutoEnded 0 False) \<and>
   currentIndex (reached threeUnits webAudioContext
      [ToggleAutoPlay, SpeakSentence ''s-1-orig'']) = 0 \<and>
   currentIndex (reached threeUnits webAudioContext
      [ToggleAutoPlay, SpeakSentence ''s-1-orig'', SpeechDone 0 (Some [0, 0]), SourceEnded 0]) = 1 \<and>
   activeSpeechId (reached threeUnits webAudioContext
      [SpeakSentence ''s-0-orig'', SpeakSentence ''s-1-orig'']) = None \<and>
   activeSpeechId (reached threeUnits webAudioContext
      [SpeakSentence ''s-0-orig'', SpeakSentence ''s-1-orig'', SpeechDone 0 (Some [0, 0])])
     = Some ''s-0-orig'' \<and>
   phase (sources (reached threeUnits webAudioContext
      [SpeakSentence ''s-0-orig'', SpeakSentence ''s-1-orig'', SpeechDone 0 (Some [0, 0])]) ! 0)
     = Playing"
  by (simp add: reached_def run_defs)

subsection \<open>Stopping\<close>

lemma stopsDetached_start: "stopsDetached xs \<Longrightarrow> stopsDetached (xs @ [Start i])"
  by (auto simp: stopsDetached_def nth_append split: devop.splits)

lemma stopsDetached_stop:
  "stopsDetached xs \<Longrightarrow> stopsDetached (xs @ [Detach i, Stop i, Disconnect i])"
  by (auto simp: stopsDetached_def nth_append less_Suc_eq split: devop.splits)

lemma invariant_fields:
  "sources q = sources p \<Longrightarrow> deviceLog q = deviceLog p \<Longrightarrow> currentSourceRef q = currentSourceRef p \<Longrightarrow>
   stoppingInvariant p \<Longrightarrow> stoppingInvariant q"
  by (auto simp: stoppingInvariant_def haltedDetached_def refInRange_def split: option.splits)

lemma invariant_stopAllAudio: "stoppingInvariant p \<Longrightarrow> stoppingInvariant (stopAllAudio p)"
  by (auto simp: stoppingInvariant_def haltedDetached_def refInRange_def stopAllAudio_def
      source_defs stopsDetached_stop nth_list_update split: option.splits)

lemma invariant_playNextSentence:
  "stoppingInvariant p \<Longrightarrow> stoppingInvariant (playNextSentence lesson c l k p)"
  by (rule invariant_fields [of _ p]) simp_all

lemma invariant_afterRender:
  "stoppingInvariant new \<Longrightarrow> stoppingInvariant (afterRender lesson old new)"
  by (simp add: afterRender_def playbackEffect_def invariant_stopAllAudio invariant_playNextSentence)

lemma invariant_started:
  assumes "stoppingInvariant p"
  shows "stoppingInvariant
     (startSource (length (sources p))
        ((createBufferSource buf h p)\<lparr>currentSourceRef := Some (length (sources p))\<rparr>))"
  using assms
  by (auto simp: stoppingInvariant_def haltedDetached_def refInRange_def source_defs
      stopsDetached_start nth_append nth_list_update)

lemma invariant_speakSentence: "stoppingInvariant p \<Longrightarrow> stoppingInvariant (speakSentence ident p)"
proof -
  assume "stoppingInvariant p"
  then have "stoppingInvariant (stopAllAudio p)" by (rule invariant_stopAllAudio)
  then show ?thesis
    by (rule invariant_fields [rotated 3]) (simp_all add: speakSentence_def Let_def)
qed

lemma invariant_pointSpeechDone:
  assumes "stoppingInvariant p"
  shows "stoppingInvariant (pointSpeechDone ctx ident audioBytes p)"
proof -
  have "\<And>buf. stoppingInvariant
     (startSource (length (sources p))
        ((createBufferSource buf OnPointEnded p)\<lparr>currentSourceRef := Some (length (sources p))\<rparr>))"
    using assms by (rule invariant_started)
  then have "\<And>buf. stoppingInvariant
     (startSource (length (sources p))
        ((createBufferSource buf OnPointEnded (p\<lparr>loadingSpeechId := None\<rparr>))
           \<lparr>currentSourceRef := Some (length (sources p)), activeSpeechId := Some ident,
             statusMsg := None\<rparr>))"
    by (auto simp: stoppingInvariant_def haltedDetached_def refInRange_def source_defs
        split: option.splits)
  with assms show ?thesis
    by (auto simp: pointSpeechDone_def Let_def split: option.splits sum.splits
        intro: invariant_fields [of _ p])
qed

lemma invariant_create: "stoppingInvariant p \<Longrightarrow> stoppingInvariant (createBufferSource buf h p)"
  by (auto simp: stoppingInvariant_def haltedDetached_def refInRange_def source_defs nth_append
      split: option.splits)

lemma invariant_start:
  "stoppingInvariant q \<Longrightarrow> i < length (sources q) \<Longrightarrow>
   stoppingInvariant (startSource i (q\<lparr>currentSourceRef := Some i\<rparr>))"
  by (auto simp: stoppingInvariant_def haltedDetached_def refInRange_def source_defs
      stopsDetached_start nth_list_update)

lemma invariant_autoSpeechDone:
  assumes "stoppingInvariant p"
  shows "stoppingInvariant (autoSpeechDone ctx c k l audioBytes p)"
proof -
  have p1: "stoppingInvariant (p\<lparr>loadingAudio := False\<rparr>)"
    using assms by (rule invariant_fields [rotated 3]) simp_all
  have started: "\<And>buf. stoppingInvariant
     (startSource (length (sources p))
        ((stopAllAudio (createBufferSource buf (OnAutoEnded k l) (p\<lparr>loadingAudio := False\<rparr>)))
           \<lparr>currentSourceRef := Some (length (sources p))\<rparr>))"
  proof -
    fix buf
    have "stoppingInvariant
        (stopAllAudio (createBufferSource buf (OnAutoEnded k l) (p\<lparr>loadingAudio := False\<rparr>)))"
      using p1 by (intro invariant_stopAllAudio invariant_create)
    moreover have "length (sources p) <
        length (sources (stopAllAudio (createBufferSource buf (OnAutoEnded k l) (p\<lparr>loadingAudio := False\<rparr>))))"
      by (simp add: createBufferSource_def)
    ultimately show "stoppingInvariant
     (startSource (length (sources p))
        ((stopAllAudio (createBufferSource buf (OnAutoEnded k l) (p\<lparr>loadingAudio := False\<rparr>)))
           \<lparr>currentSourceRef := Some (length (sources p))\<rparr>))"
      by (rule invariant_start)
  qed
  have "\<And>q. stoppingInvariant q \<Longrightarrow> stoppingInvariant (q\<lparr>statusMsg := None\<rparr>)"
    by (rule invariant_fields [rotated 3]) simp_all
  with started assms p1 show ?thesis
    by (auto simp: autoSpeechDone_def Let_def split: option.splits sum.splits
        intro: invariant_fields [of _ p])
qed

lemma invariant_speechDone:
  assumes "stoppingInvariant p"
  shows "stoppingInvariant (speechDone ctx r audioBytes p)"
proof -
  have "stoppingInvariant (p\<lparr>requests := (requests p)[r := Settled]\<rparr>)"
    using assms by (rule invariant_fields [rotated 3]) simp_all
  with assms show ?thesis
    by (simp add: speechDone_def Let_def invariant_autoSpeechDone invariant_pointSpeechDone
        split: request.splits)
qed

lemma invariant_autoEnded:
  "stoppingInvariant p \<Longrightarrow> stoppingInvariant (autoEnded lesson k l p)"
  by (auto simp: autoEnded_def Let_def invariant_playNextSentence intro: invariant_fields [of _ p])

lemma invariant_sourceEnded:
  assumes "stoppingInvariant p"
  shows "stoppingInvariant (sourceEnded lesson i p)"
proof -
  have d: "stoppingInvariant (p\<lparr>sources := (sources p)[i := (sources p ! i)\<lparr>phase := Done\<rparr>]\<rparr>)"
    using assms
    by (cases "i < length (sources p)")
       (auto simp: stoppingInvariant_def haltedDetached_def refInRange_def nth_list_update
        split: option.splits)
  then have "stoppingInvariant
      (p\<lparr>sources := (sources p)[i := (sources p ! i)\<lparr>phase := Done\<rparr>], activeSpeechId := None\<rparr>)"
    by (rule invariant_fields [rotated 3]) simp_all
  with d assms show ?thesis
    by (simp add: sourceEnded_def Let_def invariant_autoEnded split: option.splits handler.splits)
qed

lemma invariant_timerFired:
  "stoppingInvariant p \<Longrightarrow> stoppingInvariant (timerFired lesson t p)"
  by (auto simp: timerFired_def skipAfterFailure_def split: option.splits
      intro: invariant_fields [of _ p])

lemma invariant_unmount: "stoppingInvariant p \<Longrightarrow> stoppingInvariant (unmount p)"
  by (auto simp: stoppingInvariant_def haltedDetached_def refInRange_def unmount_def
      split: option.splits)

lemma invariant_handle:
  assumes "stoppingInvariant p"
  shows "stoppingInvariant (handle lesson ctx ev p)"
proof (cases ev)
  case ToggleAutoPlay
  have "\<And>q. stoppingInvariant q \<Longrightarrow> stoppingInvariant (q\<lparr>isPlaying := \<not> isPlaying p\<rparr>)"
    by (rule invariant_fields [rotated 3]) simp_all
  with assms ToggleAutoPlay show ?thesis
    by (simp add: handle_def toggleAutoPlay_def Let_def invariant_stopAllAudio)
next
  case (SpeakSentence ident)
  with assms show ?thesis by (simp add: handle_def invariant_speakSentence)
next
  case PrevClick
  with assms show ?thesis
    by (auto simp: handle_def prevClick_def intro: invariant_fields [of _ p])
next
  case NextClick
  with assms show ?thesis
    by (auto simp: handle_def nextClick_def intro: invariant_fields [of _ p])
next
  case ToggleLoop
  with assms show ?thesis
    by (auto simp: handle_def toggleLoop_def intro: invariant_fields [of _ p])
next
  case (SpeechDone r audioBytes)
  with assms show ?thesis by (simp add: handle_def invariant_speechDone)
next
  case (SourceEnded i)
  with assms show ?thesis by (simp add: handle_def invariant_sourceEnded)
next
  case (TimerFired t)
  with assms show ?thesis by (simp add: handle_def invariant_timerFired)
next
  case Unmount
  with assms show ?thesis by (simp add: handle_def invariant_unmount)
qed

lemma invariant_step: "stoppingInvariant p \<Longrightarrow> stoppingInvariant (step lesson ctx ev p)"
  by (simp add: step_def invariant_unmount invariant_afterRender invariant_handle)

lemma invariant_run: "stoppingInvariant p \<Longrightarrow> stoppingInvariant (run lesson ctx evs p)"
  by (induction evs arbitrary: p) (simp_all add: invariant_step)

lemma invariant_initial: "stoppingInvariant initialPlayer"
  by (simp add: stoppingInvariant_def haltedDetached_def refInRange_def stopsDetached_def
      initialPlayer_def)

lemma step_ended_detached:
  assumes "i < length (sources q)" and "onended (sources q ! i) = None"
  shows "currentIndex (step lesson ctx (SourceEnded i) q) = currentIndex q \<and>
         isPlaying (step lesson ctx (SourceEnded i) q) = isPlaying q \<and>
         isLooping (step lesson ctx (SourceEnded i) q) = isLooping q \<and>
         activeSpeechId (step lesson ctx (SourceEnded i) q) = activeSpeechId q \<and>
         statusMsg (step lesson ctx (SourceEnded i) q) = statusMsg q \<and>
         requests (step lesson ctx (SourceEnded i) q) = requests q \<and>
         timers (step lesson ctx (SourceEnded i) q) = timers q \<and>
         deviceLog (step lesson ctx (SourceEnded i) q) = deviceLog q"
  using assms
  by (simp add: step_def handle_def sourceEnded_def Let_def afterRender_def depsChanged_def)


lemma step_pause_stops_current:
  assumes "stoppingInvariant q" and "isComponentMounted q" and "isPlaying q"
    and "currentSourceRef q = Some i"
  shows "\<not> isPlaying (step lesson ctx ToggleAutoPlay q) \<and>
         currentSourceRef (step lesson ctx ToggleAutoPlay q) = None \<and>
         onended (sources (step lesson ctx ToggleAutoPlay q) ! i) = None \<and>
         phase (sources (step lesson ctx ToggleAutoPlay q) ! i) \<noteq> Playing"
proof -
  from assms(1,4) have i: "i < length (sources q)"
    by (simp add: stoppingInvariant_def refInRange_def)
  show ?thesis
  proof (cases "truthy (activeSpeechId q)")
    case False
    then have "step lesson ctx ToggleAutoPlay q = stopAllAudio (q\<lparr>isPlaying := False\<rparr>)"
      using assms(2,3)
      by (simp add: step_def handle_def toggleAutoPlay_def afterRender_def depsChanged_def
          playbackEffect_def)
    then show ?thesis using assms(4) i
      by (simp add: stopAllAudio_def source_defs)
  next
    case True
    then have "step lesson ctx ToggleAutoPlay q = stopAllAudio ((stopAllAudio q)\<lparr>isPlaying := False\<rparr>)"
      using assms(2,3)
      by (simp add: step_def handle_def toggleAutoPlay_def afterRender_def depsChanged_def
          playbackEffect_def)
    then show ?thesis using assms(4) i
      by (simp add: stopAllAudio_def source_defs)
  qed
qed

text \<open>
  Claim C5. In every state a mounted player reaches from its initial state: each \<^verbatim>\<open>stop()\<close>
  in the log of calls is directly preceded by the detaching of the handler of the same
  source; a halted source has no handler, and the delivery of its \<^verbatim>\<open>ended\<close> event changes
  neither the index nor \<^verbatim>\<open>isPlaying\<close> nor the looping flag, the active point-read, the
  status, the requests, the timers or the log; and pausing the narration leaves the current
  source detached and not playing.
\<close>

theorem stopped_source_never_completes:
  "stopsDetached (deviceLog (reached lesson ctx evs)) \<and>
   (\<forall>i \<in> {..<length (sources (reached lesson ctx evs))}.
      phase (sources (reached lesson ctx evs) ! i) = Halted \<longrightarrow>
        onended (sources (reached lesson ctx evs) ! i) = None \<and>
        currentIndex (step lesson ctx (SourceEnded i) (reached lesson ctx evs))
          = currentIndex (reached lesson ctx evs) \<and>
        isPlaying (step lesson ctx (SourceEnded i) (reached lesson ctx evs))
          = isPlaying (reached lesson ctx evs) \<and>
        isLooping (step lesson ctx (SourceEnded i) (reached lesson ctx evs))
          = isLooping (reached lesson ctx evs) \<and>
        activeSpeechId (step lesson ctx (SourceEnded i) (reached lesson ctx evs))
          = activeSpeechId (reached lesson ctx evs) \<and>
        statusMsg (step lesson ctx (SourceEnded i) (reached lesson ctx evs))
          = statusMsg (reached lesson ctx evs) \<and>
        requests (step lesson ctx (SourceEnded i) (reached lesson ctx evs))
          = requests (reached lesson ctx evs) \<and>
        timers (step lesson ctx (SourceEnded i) (reached lesson ctx evs))
          = timers (reached lesson ctx evs) \<and>
        deviceLog (step lesson ctx (SourceEnded i) (reached lesson ctx evs))
          = deviceLog (reached lesson ctx evs)) \<and>
   (\<forall>i. isComponentMounted (reached lesson ctx evs) \<and> isPlaying (reached lesson ctx evs) \<and>
        currentSourceRef (reached lesson ctx evs) = Some i \<longrightarrow>
      \<not> isPlaying (step lesson ctx ToggleAutoPlay (reached lesson ctx evs)) \<and>
      currentSourceRef (step lesson ctx ToggleAutoPlay (reached lesson ctx evs)) = None \<and>
      onended (sources (step lesson ctx ToggleAutoPlay (reached lesson ctx evs)) ! i) = None \<and>
      phase (sources (step lesson ctx ToggleAutoPlay (reached lesson ctx evs)) ! i) \<noteq> Playing)"
proof -
  let ?q = "reached lesson ctx evs"
  have inv: "stoppingInvariant ?q"
    unfolding reached_def using invariant_initial by (rule invariant_run)
  then have a: "stopsDetached (deviceLog ?q)"
    by (simp add: stoppingInvariant_def)
  have b: "\<forall>i \<in> {..<length (sources ?q)}.
      phase (sources ?q ! i) = Halted \<longrightarrow>
        onended (sources ?q ! i) = None \<and>
        currentIndex (step lesson ctx (SourceEnded i) ?q) = currentIndex ?q \<and>
        isPlaying (step lesson ctx (SourceEnded i) ?q) = isPlaying ?q \<and>
        isLooping (step lesson ctx (SourceEnded i) ?q) = isLooping ?q \<and>
        activeSpeechId (step lesson ctx (SourceEnded i) ?q) = activeSpeechId ?q \<and>
        statusMsg (step lesson ctx (SourceEnded i) ?q) = statusMsg ?q \<and>
        requests (step lesson ctx (SourceEnded i) ?q) = requests ?q \<and>
        timers (step lesson ctx (SourceEnded i) ?q) = timers ?q \<and>
        deviceLog (step lesson ctx (SourceEnded i) ?q) = deviceLog ?q"
  proof (intro ballI impI)
    fix i assume i: "i \<in> {..<length (sources ?q)}" and h: "phase (sources ?q ! i) = Halted"
    from inv i h have d: "onended (sources ?q ! i) = None"
      by (simp add: stoppingInvariant_def haltedDetached_def)
    from i have "i < length (sources ?q)" by simp
    from step_ended_detached [OF this d] d
    show "onended (sources ?q ! i) = None \<and>
        currentIndex (step lesson ctx (SourceEnded i) ?q) = currentIndex ?q \<and>
        isPlaying (step lesson ctx (SourceEnded i) ?q) = isPlaying ?q \<and>
        isLooping (step lesson ctx (SourceEnded i) ?q) = isLooping ?q \<and>
        activeSpeechId (step lesson ctx (SourceEnded i) ?q) = activeSpeechId ?q \<and>
        statusMsg (step lesson ctx (SourceEnded i) ?q) = statusMsg ?q \<and>
        requests (step lesson ctx (SourceEnded i) ?q) = requests ?q \<and>
        timers (step lesson ctx (SourceEnded i) ?q) = timers ?q \<and>
        deviceLog (step lesson ctx (SourceEnded i) ?q) = deviceLog ?q"
      by blast
  qed
  have c: "\<forall>i. isComponentMounted ?q \<and> isPlaying ?q \<and> currentSourceRef ?q = Some i \<longrightarrow>
      \<not> isPlaying (step lesson ctx ToggleAutoPlay ?q) \<and>
      currentSourceRef (step lesson ctx ToggleAutoPlay ?q) = None \<and>
      onended (sources (step lesson ctx ToggleAutoPlay ?q) ! i) = None \<and>
      phase (sources (step lesson ctx ToggleAutoPlay ?q) ! i) \<noteq> Playing"
    using step_pause_stops_current [OF inv] by blast
  from a b c show ?thesis by blast
qed

text \<open>
  Unit 0 of three is playing and the narration is paused: the source is halted without a
  handler, the log reads start, detach, stop, disconnect, and the delivery of the \<^verbatim>\<open>ended\<close>
  event leaves the index at 0 and the narration paused.
\<close>

theorem stopped_source_never_completes_witness:
  "isComponentMounted (reached threeUnits webAudioContext [ToggleAutoPlay, SpeechDone 0 (Some [0, 0])]) \<and>
   isPlaying (reached threeUnits webAudioContext [ToggleAutoPlay, SpeechDone 0 (Some [0, 0])]) \<and>
   currentSourceRef (reached threeUnits webAudioContext [ToggleAutoPlay, SpeechDone 0 (Some [0, 0])]) = Some 0 \<and>
   onended (sources (step threeUnits webAudioContext ToggleAutoPlay
     (reached threeUnits webAudioContext [ToggleAutoPlay, SpeechDone 0 (Some [0, 0])])) ! 0) = None \<and>
   0 \<in> {..<length (sources (reached threeUnits webAudioContext
        [ToggleAutoPlay, SpeechDone 0 (Some [0, 0]), ToggleAutoPlay]))} \<and>
   phase (sources (reached threeUnits webAudioContext
        [ToggleAutoPlay, SpeechDone 0 (Some [0, 0]), ToggleAutoPlay]) ! 0) = Halted \<and>
   deviceLog (reached threeUnits webAudioContext
        [ToggleAutoPlay, SpeechDone 0 (Some [0, 0]), ToggleAutoPlay])
     = [Start 0, Detach 0, Stop 0, Disconnect 0] \<and>
   stopsDetached [Start 0, Detach 0, Stop 0, Disconnect 0] \<and>
   currentIndex (step threeUnits webAudioContext (SourceEnded 0)
     (reached threeUnits webAudioContext [ToggleAutoPlay, SpeechDone 0 (Some [0, 0]), ToggleAutoPlay])) = 0 \<and>
   \<not> isPlaying (step threeUnits webAudioContext (SourceEnded 0)
     (reached threeUnits webAudioContext [ToggleAutoPlay, SpeechDone 0 (Some [0, 0]), ToggleAutoPlay]))"
proof -
  let ?n = "reached threeUnits webAudioContext [ToggleAutoPlay, SpeechDone 0 (Some [0, 0])]"
  let ?q = "reached threeUnits webAudioContext
        [ToggleAutoPlay, SpeechDone 0 (Some [0, 0]), ToggleAutoPlay]"
  have n: "?n = narratingFirst" by (simp add: reached_def narratingFirst_def)
  have N: "isComponentMounted ?n \<and> isPlaying ?n \<and> currentSourceRef ?n = Some 0"
    unfolding n by (simp add: narratingFirst_eq)
  have q: "?q = \<lparr>currentIndex = 0, isPlaying = False, isLooping = False, loadingAudio = False,
      activeSpeechId = None, loadingSpeechId = None, statusMsg = None,
      isComponentMounted = True, currentSourceRef = None,
      sources = [\<lparr>srcBuffer = [0], onended = None, phase = Halted, connected = False\<rparr>],
      requests = [Settled], timers = [], deviceLog = [Start 0, Detach 0, Stop 0, Disconnect 0]\<rparr>"
    by (simp add: reached_def run_defs)
  have Q: "0 \<in> {..<length (sources ?q)}" "phase (sources ?q ! 0) = Halted"
    "deviceLog ?q = [Start 0, Detach 0, Stop 0, Disconnect 0]"
    "currentIndex ?q = 0" "\<not> isPlaying ?q"
    by (simp_all add: q)
  have p: "onended (sources (step threeUnits webAudioContext ToggleAutoPlay ?n) ! 0) = None"
    using stopped_source_never_completes [of threeUnits webAudioContext
        "[ToggleAutoPlay, SpeechDone 0 (Some [0, 0])]", THEN conjunct2, THEN conjunct2] N
    by blast
  note T = stopped_source_never_completes [of threeUnits webAudioContext
        "[ToggleAutoPlay, SpeechDone 0 (Some [0, 0]), ToggleAutoPlay]"]
  have l: "stopsDetached [Start 0, Detach 0, Stop 0, Disconnect 0]"
    using T [THEN conjunct1] by (simp only: Q(3))
  have e: "currentIndex (step threeUnits webAudioContext (SourceEnded 0) ?q) = currentIndex ?q \<and>
           isPlaying (step threeUnits webAudioContext (SourceEnded 0) ?q) = isPlaying ?q"
    using T [THEN conjunct2, THEN conjunct1, rule_format, OF Q(1) Q(2)] by blast
  from N p Q l e show ?thesis by simp
qed

subsection \<open>The earlier drafts\<close>

text \<open>The decoder of the second draft does not accept an odd number of bytes.\<close>

lemma decodeAudioDataDraft_odd:
  "odd (length B) \<Longrightarrow> decodeAudioDataDraft (newUint8Array B) ctx = Inl RangeError"
  by (simp add: decodeAudioDataDraft_def newInt16ArrayWhole_def newUint8Array_def odd_iff_mod_2_eq_one)


end
